theory Spec2Isabelle
  imports Main
begin

section \<open>JavaScript values used by the downloader\<close>

text \<open>
  JavaScript strings are modelled as \<open>string\<close>: one \<open>char\<close> per UTF-16 code unit, for
  code units below 256. Numbers that hold counts, indices and delays are integers.
\<close>

subsection \<open>Number to string\<close>

definition digit_char :: "nat \<Rightarrow> char" where
  "digit_char d = ''0123456789'' ! d"

fun show_nat :: "nat \<Rightarrow> string" where
  "show_nat n = (if n < 10 then [digit_char n] else show_nat (n div 10) @ [digit_char (n mod 10)])"

declare show_nat.simps [simp del]

definition show_int :: "int \<Rightarrow> string" where
  "show_int i = (if i < 0 then CHR ''-'' # show_nat (nat (- i)) else show_nat (nat i))"

subsection \<open>Characters and strings\<close>

text \<open>
  White space as \<open>trim\<close>, \<open>parseInt\<close> and the regular-expression class \<open>\s\<close> see it, among the
  code units below 256: tab, line feed, vertical tab, form feed, carriage return, space and
  the no-break space.
\<close>

definition is_space :: "char \<Rightarrow> bool" where
  "is_space c \<longleftrightarrow> c \<in> {CHR 0x09, CHR 0x0A, CHR 0x0B, CHR 0x0C, CHR 0x0D, CHR 0x20, CHR 0xA0}"

definition is_digit :: "char \<Rightarrow> bool" where
  "is_digit c \<longleftrightarrow> c \<in> set ''0123456789''"

definition is_alnum :: "char \<Rightarrow> bool" where
  "is_alnum c \<longleftrightarrow>
     c \<in> set ''abcdefghijklmnopqrstuvwxyzABCDEFGHIJKLMNOPQRSTUVWXYZ0123456789''"

fun index_of :: "'a \<Rightarrow> 'a list \<Rightarrow> nat option" where
  "index_of c [] = None"
| "index_of c (x # xs) = (if c = x then Some 0 else map_option Suc (index_of c xs))"

definition trim :: "string \<Rightarrow> string" where
  "trim s = rev (dropWhile is_space (rev (dropWhile is_space s)))"

text \<open>
  \<open>toLowerCase\<close> on code units below 256: the letters A to Z, and the Latin-1 capitals
  \<open>0xC0\<close> to \<open>0xDE\<close> without the multiplication sign \<open>0xD7\<close>, move up by 32. A code unit
  below 128 (\<open>digit7\<close> is the top bit) that is not a capital letter stays.
\<close>

definition lower_char :: "char \<Rightarrow> char" where
  "lower_char c =
     (case index_of c ''ABCDEFGHIJKLMNOPQRSTUVWXYZ'' of
        Some i \<Rightarrow> ''abcdefghijklmnopqrstuvwxyz'' ! i
      | None \<Rightarrow>
          if \<not> digit7 c then c
          else if 192 \<le> (of_char c :: nat) \<and> (of_char c :: nat) \<le> 222 \<and>
                  (of_char c :: nat) \<noteq> 215
          then char_of ((of_char c :: nat) + 32) else c)"

definition toLowerCase :: "string \<Rightarrow> string" where
  "toLowerCase s = map lower_char s"

fun startsWith :: "string \<Rightarrow> string \<Rightarrow> bool" where
  "startsWith s [] = True"
| "startsWith [] (p # ps) = False"
| "startsWith (c # cs) (p # ps) = (c = p \<and> startsWith cs ps)"

text \<open>\<open>s.split(sep)\<close> for a separator of one character.\<close>

fun split :: "char \<Rightarrow> string \<Rightarrow> string list" where
  "split sep [] = [[]]"
| "split sep (c # cs) =
     (if c = sep then [] # split sep cs
      else (case split sep cs of [] \<Rightarrow> [[c]] | w # ws \<Rightarrow> (c # w) # ws))"

text \<open>\<open>s.slice(-n)\<close>: the last \<open>n\<close> code units, the whole string when it is shorter.\<close>

definition slice_last :: "nat \<Rightarrow> string \<Rightarrow> string" where
  "slice_last n s = drop (length s - n) s"

subsection \<open>parseInt with radix 10\<close>

text \<open>
  The numbers that \<open>parseInt\<close> returns: a double with an integer value, one of the two
  infinities, or \<open>NaN\<close>. (The negative zero that \<open>parseInt('-0')\<close> returns is \<open>Num 0\<close>; no
  comparison tells the two zeros apart.)
\<close>

datatype number = Num int | Infinity | NegInfinity | NaN

text \<open>\<open>x > 0\<close>, which is false for \<open>NaN\<close>.\<close>

definition positive :: "number \<Rightarrow> bool" where
  "positive x = (case x of Num n \<Rightarrow> 0 < n | Infinity \<Rightarrow> True | NegInfinity \<Rightarrow> False | NaN \<Rightarrow> False)"

text \<open>
  The double next to a natural number, with ties going to the even significand: a number
  below \<open>2^53\<close> is a double itself, a larger one keeps its 53 leading bits, rounded, and from
  \<open>2^1024 - 2^970\<close> on the result is infinite (\<open>None\<close>).
\<close>

fun bit_length :: "nat \<Rightarrow> nat" where
  "bit_length n = (if n = 0 then 0 else Suc (bit_length (n div 2)))"

declare bit_length.simps [simp del]

definition to_double :: "nat \<Rightarrow> nat option" where
  "to_double n =
     (if n < 2 ^ 53 then Some n
      else
        (let e = bit_length n - 53; q = n div 2 ^ e; r = n mod 2 ^ e;
             m = (if 2 ^ e < 2 * r \<or> (2 * r = 2 ^ e \<and> odd q) then q + 1 else q)
         in if 2 ^ 1024 \<le> m * 2 ^ e then None else Some (m * 2 ^ e)))"

text \<open>
  \<open>parseInt(s, 10)\<close> skips leading white space, reads an optional sign and then the longest
  run of decimal digits; without a digit the result is \<open>NaN\<close>. Otherwise it is the double next
  to the integer that the digits denote, as Node computes it, so that a digit string from
  about 309 digits on gives \<open>Infinity\<close>. An argument that is \<open>undefined\<close> is first turned into
  the string \<open>undefined\<close>.
\<close>

definition digits_value :: "string \<Rightarrow> nat" where
  "digits_value ds = foldl (\<lambda>acc c. 10 * acc + the (index_of c ''0123456789'')) 0 ds"

definition parseInt :: "string \<Rightarrow> number" where
  "parseInt s =
     (let t = dropWhile is_space s;
          neg = (case t of c # _ \<Rightarrow> c = CHR ''-'' | [] \<Rightarrow> False);
          u = (case t of c # cs \<Rightarrow> if c = CHR ''-'' \<or> c = CHR ''+'' then cs else t | [] \<Rightarrow> t);
          ds = takeWhile is_digit u
      in if ds = [] then NaN
         else
           (case to_double (digits_value ds) of
              None \<Rightarrow> if neg then NegInfinity else Infinity
            | Some m \<Rightarrow> Num (if neg then - int m else int m)))"

definition parseInt_arg :: "string option \<Rightarrow> number" where
  "parseInt_arg a = (case a of None \<Rightarrow> parseInt ''undefined'' | Some s \<Rightarrow> parseInt s)"

subsection \<open>Errors\<close>

datatype js_error = Error string | TypeError string

fun message :: "js_error \<Rightarrow> string" where
  "message (Error m) = m"
| "message (TypeError m) = m"

section \<open>retryAsync\<close>

text \<open>
  \<^verbatim>\<open>
  const MAX_RETRIES = 3;
  const RETRY_DELAY = 1000;
  async function retryAsync(fn, retries = MAX_RETRIES, delay = RETRY_DELAY) {
      for (let i = 0; i < retries; i++) {
          try { return await fn(); }
          catch (error) {
              if (i === retries - 1) throw error;
              await sleep(delay * (i + 1));
          }
      }
  }
  \<close>
  The operation is given by the outcome of each of its successive invocations: \<open>fn i\<close> is
  what the call made in iteration \<open>i\<close> does, \<open>Inl e\<close> when it throws \<open>e\<close>. Besides the outcome
  the model records how often \<open>fn\<close> was called and the arguments of the \<open>sleep\<close> calls in order.
  A loop that is never entered falls off the end of the function, which returns \<open>undefined\<close>.
\<close>

definition MAX_RETRIES :: nat where
  "MAX_RETRIES = 3"

definition RETRY_DELAY :: int where
  "RETRY_DELAY = 1000"

datatype ('e, 'a) completion = Returned 'a | Thrown 'e | Undefined

record ('e, 'a) retry_run =
  outcome :: "('e, 'a) completion"
  calls :: nat
  sleeps :: "int list"

function retry_loop ::
  "(nat \<Rightarrow> 'e + 'a) \<Rightarrow> nat \<Rightarrow> int \<Rightarrow> nat \<Rightarrow> int list \<Rightarrow> ('e, 'a) retry_run" where
  "retry_loop fn retries delay i slept =
     (if i < retries then
        (case fn i of
           Inr v \<Rightarrow> \<lparr>outcome = Returned v, calls = Suc i, sleeps = slept\<rparr>
         | Inl e \<Rightarrow>
             if i = retries - 1 then \<lparr>outcome = Thrown e, calls = Suc i, sleeps = slept\<rparr>
             else retry_loop fn retries delay (Suc i) (slept @ [delay * (int i + 1)]))
      else \<lparr>outcome = Undefined, calls = i, sleeps = slept\<rparr>)"
  by pat_completeness auto
termination
  by (relation "measure (\<lambda>(fn, retries, delay, i, slept). retries - i)") auto

declare retry_loop.simps [simp del]

definition retryAsync :: "(nat \<Rightarrow> 'e + 'a) \<Rightarrow> nat \<Rightarrow> int \<Rightarrow> ('e, 'a) retry_run" where
  "retryAsync fn retries delay = retry_loop fn retries delay 0 []"

text \<open>The linear backoff: the waits that follow the failed attempts \<open>i+1, ..., k\<close>.\<close>

definition backoff :: "int \<Rightarrow> nat \<Rightarrow> nat \<Rightarrow> int list" where
  "backoff delay i k = map (\<lambda>j. delay * (int j + 1)) [i..<k]"

section \<open>Download status and the completion verdict\<close>

record description_status =
  desc_success :: bool
  desc_formats :: "string list"

record resource_status =
  success :: bool
  count :: int
  total :: int
  languages :: "string list"

record download_status =
  problemId :: string
  problemName :: string
  description :: description_status
  templates :: resource_status
  officialSolution :: resource_status
  communitySolutions :: resource_status
  errors :: "string list"

record config =
  cfg_problemId :: "string option"
  formats :: "string list"
  fetchTemplates :: bool
  fetchSolutions :: bool
  fetchOfficialSolution :: bool
  concurrency :: number

text \<open>
  \<^verbatim>\<open>
  const isFullyComplete = status.description.success &&
      (!CONFIG.fetchTemplates || status.templates.count === status.templates.total) &&
      (!CONFIG.fetchOfficialSolution || status.officialSolution.count === status.officialSolution.total) &&
      (!CONFIG.fetchSolutions || status.communitySolutions.count === status.communitySolutions.total);
  \<close>
\<close>

definition isFullyComplete :: "config \<Rightarrow> download_status \<Rightarrow> bool" where
  "isFullyComplete CONFIG status \<longleftrightarrow>
     desc_success (description status) \<and>
     (\<not> fetchTemplates CONFIG \<or> count (templates status) = total (templates status)) \<and>
     (\<not> fetchOfficialSolution CONFIG \<or>
        count (officialSolution status) = total (officialSolution status)) \<and>
     (\<not> fetchSolutions CONFIG \<or>
        count (communitySolutions status) = total (communitySolutions status))"

definition ratio :: "resource_status \<Rightarrow> string" where
  "ratio r = show_int (count r) @ ''/'' @ show_int (total r)"

text \<open>The list \<open>failureReasons\<close> that the worker builds in the branch of an incomplete item.\<close>

definition failureReasons :: "config \<Rightarrow> download_status \<Rightarrow> string list" where
  "failureReasons CONFIG status =
     (if \<not> desc_success (description status) then [''Description download failed''] else []) @
     (if fetchTemplates CONFIG \<and> count (templates status) < total (templates status)
      then [''Templates incomplete: '' @ ratio (templates status)] else []) @
     (if fetchOfficialSolution CONFIG \<and>
         count (officialSolution status) < total (officialSolution status)
      then [''Official solution incomplete: '' @ ratio (officialSolution status)] else []) @
     (if fetchSolutions CONFIG \<and>
         count (communitySolutions status) < total (communitySolutions status)
      then [''Community solutions incomplete: '' @ ratio (communitySolutions status)] else [])"

section \<open>parseArgs\<close>

text \<open>
  The loop of \<open>parseArgs\<close> runs over the argument list with an index that the options taking
  a value advance once more (\<open>args[++i]\<close>). The model recurses on the arguments that are
  left. \<open>--help\<close> prints the usage text and ends the process with \<open>process.exit(0)\<close>;
  \<open>--formats\<close> as the last argument calls \<open>split\<close> on \<open>undefined\<close>, a \<open>TypeError\<close>.
\<close>

datatype parse_stop = ProcessExit int | ParseThrows js_error

definition default_config :: config where
  "default_config =
     \<lparr>cfg_problemId = None, formats = [''html'', ''md'', ''raw''], fetchTemplates = True,
      fetchSolutions = True, fetchOfficialSolution = True, concurrency = Num 5\<rparr>"

definition set_concurrency :: "string option \<Rightarrow> config \<Rightarrow> config" where
  "set_concurrency a config =
     (let c = parseInt_arg a
      in if positive c then config\<lparr>concurrency := c\<rparr> else config)"

fun parseArgs_loop :: "string list \<Rightarrow> config \<Rightarrow> parse_stop + config" where
  "parseArgs_loop [] config = Inr config"
| "parseArgs_loop (arg # rest) config =
     (if arg = ''--help'' \<or> arg = ''-h'' then Inl (ProcessExit 0)
      else if arg = ''--formats'' \<or> arg = ''-f'' then
        (case rest of
           [] \<Rightarrow> Inl (ParseThrows
                   (TypeError ''Cannot read properties of undefined (reading 'split')''))
         | v # rest' \<Rightarrow>
             parseArgs_loop rest'
               (config\<lparr>formats := map (\<lambda>f. toLowerCase (trim f)) (split CHR '','' v)\<rparr>))
      else if arg = ''--no-templates'' then parseArgs_loop rest (config\<lparr>fetchTemplates := False\<rparr>)
      else if arg = ''--no-solutions'' then parseArgs_loop rest (config\<lparr>fetchSolutions := False\<rparr>)
      else if arg = ''--no-official'' then
        parseArgs_loop rest (config\<lparr>fetchOfficialSolution := False\<rparr>)
      else if arg = ''--concurrency'' \<or> arg = ''-c'' then
        (case rest of
           [] \<Rightarrow> Inr (set_concurrency None config)
         | v # rest' \<Rightarrow> parseArgs_loop rest' (set_concurrency (Some v) config))
      else if \<not> startsWith arg ''-'' then parseArgs_loop rest (config\<lparr>cfg_problemId := Some arg\<rparr>)
      else parseArgs_loop rest config)"

definition parseArgs :: "string list \<Rightarrow> parse_stop + config" where
  "parseArgs args = parseArgs_loop args default_config"

text \<open>The value \<open>n\<close> is what \<open>parseInt\<close> reads from an argument that follows a concurrency flag.\<close>

definition concurrency_from :: "string list \<Rightarrow> number \<Rightarrow> bool" where
  "concurrency_from args n \<longleftrightarrow>
     (\<exists>pre flag v post. args = pre @ flag # v # post \<and>
        (flag = ''--concurrency'' \<or> flag = ''-c'') \<and> parseInt v = n)"

section \<open>Folder names\<close>

text \<open>
  \<^verbatim>\<open>
  function sanitizeFolderName(name) {
      return name.replace(/[^a-zA-Z0-9]/g, '-').replace(/-+/g, '-').replace(/^-|-$/g, '');
  }
  \<close>
\<close>

definition dash_non_alnum :: "string \<Rightarrow> string" where
  "dash_non_alnum s = map (\<lambda>c. if is_alnum c then c else CHR ''-'') s"

function collapse_dashes :: "string \<Rightarrow> string" where
  "collapse_dashes [] = []"
| "collapse_dashes (c # cs) =
     (if c = CHR ''-'' then CHR ''-'' # collapse_dashes (dropWhile (\<lambda>d. d = CHR ''-'') cs)
      else c # collapse_dashes cs)"
  by pat_completeness auto
termination
  by (relation "measure length") (auto simp: length_dropWhile_le less_Suc_eq_le)

text \<open>
  \<open>/^-|-$/g\<close>: a dash at index 0 and a dash at the last index are removed (for the string
  \<open>-\<close> the first alternative takes the only dash).
\<close>

definition strip_edge_dashes :: "string \<Rightarrow> string" where
  "strip_edge_dashes s =
     (let t = (case s of c # cs \<Rightarrow> if c = CHR ''-'' then cs else s | [] \<Rightarrow> s)
      in if t \<noteq> [] \<and> last t = CHR ''-'' then butlast t else t)"

definition sanitizeFolderName :: "string \<Rightarrow> string" where
  "sanitizeFolderName name = strip_edge_dashes (collapse_dashes (dash_non_alnum name))"

record problem =
  pid :: string
  name :: string
  slug :: string
  difficulty :: string
  locked :: bool
  tags :: "string list"
  companies :: "string list"

text \<open>
  \<open>path.join\<close> on segments that hold no separator and no dot segment: the segments that are
  not empty, joined by \<open>/\<close>. The normalisation that \<open>path.join\<close> applies to other segments is
  not modelled.
\<close>

fun path_join :: "string list \<Rightarrow> string" where
  "path_join [] = ''.''"
| "path_join [s] = (if s = [] then ''.'' else s)"
| "path_join (s # ss) =
     (if s = [] then path_join ss
      else if \<forall>t \<in> set ss. t = [] then s
      else s @ ''/'' @ path_join ss)"

text \<open>
  From \<open>downloadProblem\<close>:
  \<^verbatim>\<open>
  const tag = problem.tags[0] || 'uncategorized';
  const tagFolder = sanitizeFolderName(tag);
  const problemName = sanitizeFolderName(problem.name).toLowerCase();
  const problemFolder = `${('0000' + problem.id).slice(-4)}_${problem.difficulty}_${problemName}`;
  const problemPath = path.join(outputFolder, tagFolder, problemFolder);
  \<close>
\<close>

definition tagFolder :: "problem \<Rightarrow> string" where
  "tagFolder p =
     sanitizeFolderName
       (case tags p of [] \<Rightarrow> ''uncategorized'' | t # _ \<Rightarrow> if t = [] then ''uncategorized'' else t)"

definition problemFolder :: "problem \<Rightarrow> string" where
  "problemFolder p =
     slice_last 4 (''0000'' @ pid p) @ ''_'' @ difficulty p @ ''_'' @
     toLowerCase (sanitizeFolderName (name p))"

definition problemPath :: "string \<Rightarrow> problem \<Rightarrow> string" where
  "problemPath outputFolder p = path_join [outputFolder, tagFolder p, problemFolder p]"

section \<open>Regular-expression replacement\<close>

text \<open>
  \<open>s.replace(/re/g, ...)\<close> walks over \<open>s\<close> from the left: where the expression matches at the
  current index, the match is replaced and the walk goes on behind it, otherwise the code
  unit is kept and the walk goes on at the next index. None of the expressions used here
  matches the empty string or looks behind the current index, so a match is given by a
  function of the remaining input that returns the replacement text and the length of the
  match.
\<close>

function gsub :: "(string \<Rightarrow> (string \<times> nat) option) \<Rightarrow> string \<Rightarrow> string" where
  "gsub m [] = []"
| "gsub m (c # cs) =
     (case m (c # cs) of
        Some (r, n) \<Rightarrow> r @ gsub m (drop (n - 1) cs)
      | None \<Rightarrow> c # gsub m cs)"
  by pat_completeness auto
termination
  by (relation "measure (\<lambda>(m, s). length s)") auto

text \<open>The index of the first occurrence of \<open>pat\<close> in \<open>s\<close>, as \<open>s.indexOf(pat)\<close> finds it.\<close>

fun find_sub :: "string \<Rightarrow> string \<Rightarrow> nat option" where
  "find_sub pat [] = (if pat = [] then Some 0 else None)"
| "find_sub pat (c # cs) =
     (if startsWith (c # cs) pat then Some 0 else map_option Suc (find_sub pat cs))"

text \<open>A literal, replaced by a literal.\<close>

definition literal :: "string \<Rightarrow> string \<Rightarrow> string \<Rightarrow> (string \<times> nat) option" where
  "literal pat rep s = (if startsWith s pat then Some (rep, length pat) else None)"

text \<open>
  The opening tag \<open><tg[^>]*>\<close>: the tag name \<open>tg\<close>, the longest run of code units other than \<open>>\<close>,
  and the \<open>>\<close> that must follow it. The result is the length of the tag.
\<close>

definition open_tag :: "string \<Rightarrow> string \<Rightarrow> nat option" where
  "open_tag tg s =
     (if startsWith s (CHR ''<'' # tg) then
        (let r = drop (Suc (length tg)) s; a = takeWhile (\<lambda>c. c \<noteq> CHR ''>'') r
         in if length a < length r then Some (Suc (length tg) + length a + 1) else None)
      else None)"

definition exact_tag :: "string \<Rightarrow> string \<Rightarrow> nat option" where
  "exact_tag tag s = (if startsWith s tag then Some (length tag) else None)"

text \<open>
  An opening tag, the shortest text \<open>([\s\S]*?)\<close> up to the first closing tag, and the closing
  tag. The result is the text between the tags and the length of the whole match.
\<close>

definition element :: "(string \<Rightarrow> nat option) \<Rightarrow> string \<Rightarrow> string \<Rightarrow> (string \<times> nat) option" where
  "element opening closing s =
     (case opening s of
        None \<Rightarrow> None
      | Some n \<Rightarrow>
          (case find_sub closing (drop n s) of
             None \<Rightarrow> None
           | Some i \<Rightarrow> Some (take i (drop n s), n + i + length closing)))"

definition wrap :: "string \<Rightarrow> string \<Rightarrow> (string \<times> nat) option \<Rightarrow> (string \<times> nat) option" where
  "wrap lead rest r = map_option (\<lambda>(g, n). (lead @ g @ rest, n)) r"

text \<open>\<open>/<[^>]+>/\<close>: any tag with at least one code unit between the angle brackets.\<close>

definition any_tag :: "string \<Rightarrow> (string \<times> nat) option" where
  "any_tag s =
     (case s of
        [] \<Rightarrow> None
      | c # r \<Rightarrow>
          if c = CHR ''<'' then
            (let a = takeWhile (\<lambda>c. c \<noteq> CHR ''>'') r
             in if a \<noteq> [] \<and> length a < length r then Some ([], length a + 2) else None)
          else None)"

text \<open>
  The text that a replacement string stands for (\<open>GetSubstitution\<close> of the language
  standard): \<open>$$\<close> is a dollar sign, \<open>$&\<close> the match, \<open>$`\<close> and \<open>$'\<close> the input before and
  behind the match, \<open>$n\<close> and \<open>$nn\<close> a capture group when the pattern has that many groups.
  Every other code unit stands for itself.
\<close>

definition capture_ref :: "string list \<Rightarrow> nat \<Rightarrow> string option" where
  "capture_ref caps i = (if 1 \<le> i \<and> i \<le> length caps then Some (caps ! (i - 1)) else None)"

fun expand_template :: "string \<Rightarrow> string \<Rightarrow> string \<Rightarrow> string list \<Rightarrow> string \<Rightarrow> string" where
  "expand_template matched lead rest caps [] = []"
| "expand_template matched lead rest caps [c] = [c]"
| "expand_template matched lead rest caps (c # d # t) =
     (if c \<noteq> CHR ''$'' then c # expand_template matched lead rest caps (d # t)
      else if d = CHR ''$'' then CHR ''$'' # expand_template matched lead rest caps t
      else if d = CHR ''&'' then matched @ expand_template matched lead rest caps t
      else if d = CHR ''`'' then lead @ expand_template matched lead rest caps t
      else if d = CHR 0x27 then rest @ expand_template matched lead rest caps t
      else
        (case index_of d ''0123456789'' of
           None \<Rightarrow> c # expand_template matched lead rest caps (d # t)
         | Some d1 \<Rightarrow>
             (case t of
                [] \<Rightarrow>
                  (case capture_ref caps d1 of Some g \<Rightarrow> g | None \<Rightarrow> [c, d])
              | e # t' \<Rightarrow>
                  (case index_of e ''0123456789'' of
                     None \<Rightarrow>
                       (case capture_ref caps d1 of Some g \<Rightarrow> g | None \<Rightarrow> [c, d]) @
                       expand_template matched lead rest caps t
                   | Some d2 \<Rightarrow>
                       if 10 * d1 + d2 > length caps then
                         (case capture_ref caps d1 of Some g \<Rightarrow> g | None \<Rightarrow> [c, d]) @
                         expand_template matched lead rest caps t
                       else
                         (case capture_ref caps (10 * d1 + d2) of
                            Some g \<Rightarrow> g
                          | None \<Rightarrow> [c, d, e]) @
                         expand_template matched lead rest caps t'))))"

text \<open>
  \<open>s.replace(pat, template)\<close> for a string \<open>pat\<close>: the first occurrence only, and the
  replacement string is a template without capture groups.
\<close>

definition replace_first :: "string \<Rightarrow> string \<Rightarrow> string \<Rightarrow> string" where
  "replace_first pat template s =
     (case find_sub pat s of
        None \<Rightarrow> s
      | Some i \<Rightarrow>
          take i s @
          expand_template pat (take i s) (drop (i + length pat) s) [] template @
          drop (i + length pat) s)"

section \<open>Image download and rewriting\<close>

text \<open>
  \<open>re.exec(s)\<close> in a loop, for an expression with the flag \<open>g\<close>: the matches from the left, each
  search starting behind the match before.
\<close>

function scan_all :: "(string \<Rightarrow> ('a \<times> nat) option) \<Rightarrow> string \<Rightarrow> 'a list" where
  "scan_all m [] = []"
| "scan_all m (c # cs) =
     (case m (c # cs) of
        Some (x, n) \<Rightarrow> x # scan_all m (drop (n - 1) cs)
      | None \<Rightarrow> scan_all m cs)"
  by pat_completeness auto
termination
  by (relation "measure (\<lambda>(m, s). length s)") auto

definition quote :: char where
  "quote = CHR 0x22"

definition newline :: char where
  "newline = CHR 0x0A"

text \<open>The dot of a regular expression matches every code unit but a line terminator.\<close>

definition is_line_terminator :: "char \<Rightarrow> bool" where
  "is_line_terminator c \<longleftrightarrow> c = CHR 0x0A \<or> c = CHR 0x0D"

text \<open>
  \<open>/!\[.*?\]\((https?:\/\/[^\)]+)\)/g\<close>, from \<open>downloadImageFromMarkdown\<close>. Behind \<open>![\<close> the
  alternative text grows one code unit at a time until the rest of the expression matches:
  \<open>](\<close>, \<open>http://\<close> or \<open>https://\<close>, the longest run of code units other than \<open>)\<close>, which
  must not be empty, and \<open>)\<close>. The results are the URL and the length of the match.
\<close>

definition link_target :: "string \<Rightarrow> (string \<times> nat) option" where
  "link_target t =
     (if startsWith t ''](https://'' \<or> startsWith t ''](http://'' then
        (let k = (if startsWith t ''](https://'' then 10 else 9);
             body = takeWhile (\<lambda>c. c \<noteq> CHR '')'') (drop k t)
         in if body \<noteq> [] \<and> length body < length (drop k t)
            then Some (drop 2 (take k t) @ body, k + length body + 1)
            else None)
      else None)"

fun lazy_alt :: "string \<Rightarrow> (string \<times> nat) option" where
  "lazy_alt [] = None"
| "lazy_alt (c # cs) =
     (case link_target (c # cs) of
        Some r \<Rightarrow> Some r
      | None \<Rightarrow>
          if is_line_terminator c then None
          else map_option (\<lambda>(u, n). (u, Suc n)) (lazy_alt cs))"

definition markdown_image :: "string \<Rightarrow> (string \<times> nat) option" where
  "markdown_image s =
     (if startsWith s ''!['' then map_option (\<lambda>(u, n). (u, n + 2)) (lazy_alt (drop 2 s))
      else None)"

text \<open>
  \<open>/<img[^>]+src="([^"]+)"[^>]*>/g\<close>, from \<open>processHtmlBody\<close> and \<open>convertHtmlToMarkdown\<close>.
  \<open>[^>]+\<close> first takes the longest run without \<open>>\<close> and gives code units back until
  \<open>src="\<close> follows; \<open>img_at r k\<close> tries the match with \<open>k\<close> code units for \<open>[^>]+\<close>. The
  results are the value of \<open>src\<close> and the length of the match.
\<close>

definition img_at :: "string \<Rightarrow> nat \<Rightarrow> (string \<times> nat) option" where
  "img_at r k =
     (let t = drop k r in
      if startsWith t (''src='' @ [quote]) then
        (let u = drop 5 t; v = takeWhile (\<lambda>c. c \<noteq> quote) u in
         if v \<noteq> [] \<and> length v < length u then
           (let w = drop (Suc (length v)) u; a = takeWhile (\<lambda>c. c \<noteq> CHR ''>'') w in
            if length a < length w
            then Some (v, 4 + k + 5 + length v + 1 + length a + 1)
            else None)
         else None)
      else None)"

fun img_try :: "string \<Rightarrow> nat \<Rightarrow> (string \<times> nat) option" where
  "img_try r 0 = None"
| "img_try r (Suc k) = (case img_at r (Suc k) of Some x \<Rightarrow> Some x | None \<Rightarrow> img_try r k)"

definition img_tag :: "string \<Rightarrow> (string \<times> nat) option" where
  "img_tag s =
     (if startsWith s ''<img''
      then img_try (drop 4 s) (length (takeWhile (\<lambda>c. c \<noteq> CHR ''>'') (drop 4 s)))
      else None)"

text \<open>
  A \<open>Map\<close> keeps its keys in the order of their first insertion; \<open>set\<close> on a key that is
  present replaces the value in place.
\<close>

fun map_set :: "'k \<Rightarrow> 'v \<Rightarrow> ('k \<times> 'v) list \<Rightarrow> ('k \<times> 'v) list" where
  "map_set k v [] = [(k, v)]"
| "map_set k v ((k', v') # m) = (if k' = k then (k, v) # m else (k', v') # map_set k v m)"

text \<open>
  The network: \<open>http n url\<close> tells whether the request number \<open>n\<close> made during one call,
  a GET of \<open>url\<close>, succeeds and its body is written to the image file. The file system is
  taken to succeed. Each download goes through \<open>retryAsync\<close> with its default arguments.
\<close>

type_synonym http = "nat \<Rightarrow> string \<Rightarrow> bool"

record image_state =
  imageMap :: "(string \<times> string) list"
  imageIndex :: nat
  requests :: "string list"
  attempts :: "string list"
  files :: "string list"

definition file_ext :: "string \<Rightarrow> string" where
  "file_ext url =
     (let urlFileName = last (split CHR ''/'' url)
      in if CHR ''.'' \<in> set urlFileName
         then CHR ''.'' # rev (takeWhile (\<lambda>c. c \<noteq> CHR ''.'') (rev urlFileName))
         else ''.png'')"

definition download :: "http \<Rightarrow> nat \<Rightarrow> string \<Rightarrow> (js_error, unit) retry_run" where
  "download http n url =
     retryAsync (\<lambda>i. if http (n + i) url then Inr () else Inl (Error ''request failed''))
       MAX_RETRIES RETRY_DELAY"

text \<open>
  One round of the \<open>while\<close> loop of \<open>downloadImageFromMarkdown\<close> (with \<open>fullUrl = imgUrl\<close>) and
  of \<open>processHtmlBody\<close>: \<open>imgUrl\<close> is the key of the map, \<open>fullUrl\<close> is fetched.
\<close>

definition image_round ::
  "http \<Rightarrow> string \<Rightarrow> string \<Rightarrow> string \<Rightarrow> string \<Rightarrow> image_state \<Rightarrow> image_state" where
  "image_round http imageDir relativeImagePath imgUrl fullUrl st =
     (let imageName = show_nat (imageIndex st) @ file_ext fullUrl;
          imagePath = path_join [imageDir, imageName];
          run = download http (length (requests st)) fullUrl;
          st' = st\<lparr>requests := requests st @ replicate (calls run) fullUrl,
                   attempts := attempts st @ [fullUrl]\<rparr>
      in case outcome run of
           Returned _ \<Rightarrow>
             st'\<lparr>imageMap := map_set imgUrl (relativeImagePath @ ''/'' @ imageName) (imageMap st),
                 imageIndex := Suc (imageIndex st),
                 files := files st @ [imagePath]\<rparr>
         | _ \<Rightarrow> st'\<lparr>imageMap := map_set imgUrl fullUrl (imageMap st)\<rparr>)"

definition empty_image_state :: image_state where
  "empty_image_state = \<lparr>imageMap = [], imageIndex = 0, requests = [], attempts = [], files = []\<rparr>"

text \<open>
  The second half of \<open>downloadImageFromMarkdown\<close>: for every entry of the map, in order,
  \<^verbatim>\<open>
  processedMarkdown = processedMarkdown.replace(
      new RegExp(`!\\[([^\\]]*)\\]\\(${escaped originalUrl}\\)`, 'g'),
      `![$1](${localPath})`);
  \<close>
  The escaped URL matches the URL itself. The replacement is a template with one group.
\<close>

definition image_of :: "string \<Rightarrow> string \<Rightarrow> (string list \<times> nat) option" where
  "image_of url s =
     (if startsWith s ''!['' then
        (let alt = takeWhile (\<lambda>c. c \<noteq> CHR '']'') (drop 2 s);
             t = drop (2 + length alt) s
         in if startsWith t ('']('' @ url @ '')'')
            then Some ([alt], 2 + length alt + 2 + length url + 1)
            else None)
      else None)"

function replace_image :: "string \<Rightarrow> string \<Rightarrow> string \<Rightarrow> string \<Rightarrow> string" where
  "replace_image url localPath lead [] = []"
| "replace_image url localPath lead (c # cs) =
     (case image_of url (c # cs) of
        Some (caps, n) \<Rightarrow>
          expand_template (take n (c # cs)) lead (drop (n - 1) cs) caps
            (''![$1]('' @ localPath @ '')'') @
          replace_image url localPath (lead @ take n (c # cs)) (drop (n - 1) cs)
      | None \<Rightarrow> c # replace_image url localPath (lead @ [c]) cs)"
  by pat_completeness auto
termination
  by (relation "measure (\<lambda>(url, localPath, lead, s). length s)") auto

definition rewrite_images :: "(string \<times> string) list \<Rightarrow> string \<Rightarrow> string" where
  "rewrite_images m md = foldl (\<lambda>s (originalUrl, localPath). replace_image originalUrl localPath [] s) md m"

record image_result =
  markdown :: string
  state :: image_state

definition downloadImageFromMarkdown :: "http \<Rightarrow> string \<Rightarrow> string \<Rightarrow> string \<Rightarrow> image_result" where
  "downloadImageFromMarkdown http md imageDir relativeImagePath =
     (let st = foldl (\<lambda>st imgUrl. image_round http imageDir relativeImagePath imgUrl imgUrl st)
                 empty_image_state (scan_all markdown_image md)
      in \<lparr>markdown = rewrite_images (imageMap st) md, state = st\<rparr>)"

text \<open>
  The first half of \<open>processHtmlBody\<close>, which builds the map from the \<open>src\<close> of every image of
  the description to its local path. (The HTML that the function returns as well goes to
  \<open>problem.html\<close> only.)
\<close>

definition processHtmlBody :: "http \<Rightarrow> string \<Rightarrow> string \<Rightarrow> image_state" where
  "processHtmlBody http html problemPath' =
     foldl (\<lambda>st imgUrl.
              image_round http (path_join [problemPath', ''description'', ''images'']) ''./images''
                imgUrl (if startsWith imgUrl ''/'' then ''https://leetcode.com'' @ imgUrl else imgUrl)
                st)
       empty_image_state (scan_all img_tag html)"

section \<open>convertHtmlToMarkdown\<close>

subsection \<open>Extraction of the pre blocks\<close>

text \<open>
  \<^verbatim>\<open>
  let htmlWithPlaceholders = html.replace(
      /<pre><code>([\s\S]*?)<\/code><\/pre>|<pre>([\s\S]*?)<\/pre>/g,
      (match, codeContent, preContent) => {
          const content = codeContent || preContent;
          const cleanContent = content
              .replace(/<strong[^>]*>([\s\S]*?)<\/strong>/g, '$1')
              .replace(/<em>([\s\S]*?)<\/em>/g, '$1')
              .replace(/<[^>]+>/g, '');
          const placeholder = `___PRE_BLOCK_${preIndex}___`;
          preBlocks.push('```\n' + cleanContent + '\n```');
          preIndex++;
          return placeholder;
      });
  \<close>
\<close>

definition strip_strong :: "string \<Rightarrow> string" where
  "strip_strong = gsub (\<lambda>s. wrap [] [] (element (open_tag ''strong'') ''</strong>'' s))"

definition strip_em :: "string \<Rightarrow> string" where
  "strip_em = gsub (\<lambda>s. wrap [] [] (element (exact_tag ''<em>'') ''</em>'' s))"

definition strip_tags :: "string \<Rightarrow> string" where
  "strip_tags = gsub any_tag"

definition cleanContent :: "string \<Rightarrow> string" where
  "cleanContent content = strip_tags (strip_em (strip_strong content))"

definition placeholder :: "nat \<Rightarrow> string" where
  "placeholder preIndex = ''___PRE_BLOCK_'' @ show_nat preIndex @ ''___''"

definition fenced :: "string \<Rightarrow> string" where
  "fenced c = ''```'' @ [newline] @ c @ [newline] @ ''```''"

text \<open>
  The match of the expression at the current index, with the value of
  \<open>codeContent || preContent\<close>: when the first alternative matches, \<open>preContent\<close> is
  \<open>undefined\<close>, and an empty \<open>codeContent\<close> is falsy, so that \<open>content\<close> is \<open>undefined\<close>
  (\<open>None\<close>) and \<open>content.replace\<close> throws a \<open>TypeError\<close>.
\<close>

definition pre_block :: "string \<Rightarrow> (string option \<times> nat) option" where
  "pre_block s =
     (case element (exact_tag ''<pre><code>'') ''</code></pre>'' s of
        Some (codeContent, n) \<Rightarrow> Some (if codeContent = [] then None else Some codeContent, n)
      | None \<Rightarrow>
          (case element (exact_tag ''<pre>'') ''</pre>'' s of
             Some (preContent, n) \<Rightarrow> Some (Some preContent, n)
           | None \<Rightarrow> None))"

function extract_pre :: "nat \<Rightarrow> string \<Rightarrow> js_error + string \<times> string list" where
  "extract_pre preIndex [] = Inr ([], [])"
| "extract_pre preIndex (c # cs) =
     (case pre_block (c # cs) of
        None \<Rightarrow>
          (case extract_pre preIndex cs of
             Inl e \<Rightarrow> Inl e
           | Inr (h, preBlocks) \<Rightarrow> Inr (c # h, preBlocks))
      | Some (None, n) \<Rightarrow>
          Inl (TypeError ''Cannot read properties of undefined (reading 'replace')'')
      | Some (Some content, n) \<Rightarrow>
          (case extract_pre (Suc preIndex) (drop (n - 1) cs) of
             Inl e \<Rightarrow> Inl e
           | Inr (h, preBlocks) \<Rightarrow>
               Inr (placeholder preIndex @ h, fenced (cleanContent content) # preBlocks)))"
  by pat_completeness auto
termination
  by (relation "measure (\<lambda>(i, s). length s)") auto

subsection \<open>The chain of replacements\<close>

definition img_markdown :: "(string \<times> string) list \<Rightarrow> string \<Rightarrow> (string \<times> nat) option" where
  "img_markdown imageMap' s =
     map_option
       (\<lambda>(src, n).
          (''![image]('' @
             (case map_of imageMap' src of
                Some localPath \<Rightarrow> if localPath = [] then src else localPath
              | None \<Rightarrow> src) @ '')'', n))
       (img_tag s)"

definition inline_code :: "string \<Rightarrow> (string \<times> nat) option" where
  "inline_code s =
     map_option
       (\<lambda>(code, n).
          (''`'' @
             strip_tags
               (gsub (\<lambda>s. wrap ''_'' [] (element (exact_tag ''<sub>'') ''</sub>'' s))
                  (gsub (\<lambda>s. wrap ''^'' [] (element (exact_tag ''<sup>'') ''</sup>'' s)) code)) @
           ''`'', n))
       (element (exact_tag ''<code>'') ''</code>'' s)"

definition drop_open_tag :: "string \<Rightarrow> string \<Rightarrow> string \<Rightarrow> (string \<times> nat) option" where
  "drop_open_tag tg rep s = map_option (\<lambda>n. (rep, n)) (open_tag tg s)"

text \<open>\<open>/<br\s*\/?>/\<close>\<close>

definition br_tag :: "string \<Rightarrow> (string \<times> nat) option" where
  "br_tag s =
     (if startsWith s ''<br'' then
        (let r = dropWhile is_space (drop 3 s);
             r' = (case r of c # t \<Rightarrow> if c = CHR ''/'' then t else r | [] \<Rightarrow> r)
         in case r' of
              c # t \<Rightarrow> if c = CHR ''>'' then Some ([newline], length s - length t) else None
            | [] \<Rightarrow> None)
      else None)"

text \<open>
  Numeric character references. \<open>String.fromCharCode\<close> can give a code unit above 255, which
  has no \<open>char\<close>; the model takes as a parameter \<open>fromCharCode\<close> what \<open>parseInt\<close> and
  \<open>String.fromCharCode\<close> do one after the other, from the integer that the digits denote to
  the text that stands for the code unit (the rounding of \<open>parseInt\<close> to a double is part of
  the parameter).
\<close>

definition hex_digit :: "char \<Rightarrow> nat option" where
  "hex_digit c =
     (case index_of c ''0123456789abcdef'' of
        Some v \<Rightarrow> Some v
      | None \<Rightarrow> map_option (\<lambda>v. v + 10) (index_of c ''ABCDEF''))"

definition hex_value :: "string \<Rightarrow> nat" where
  "hex_value ds = foldl (\<lambda>acc c. 16 * acc + the (hex_digit c)) 0 ds"

definition char_ref :: "(nat \<Rightarrow> string) \<Rightarrow> string \<Rightarrow> (char \<Rightarrow> bool) \<Rightarrow> (string \<Rightarrow> nat) \<Rightarrow>
    string \<Rightarrow> (string \<times> nat) option" where
  "char_ref fromCharCode intro is_dig val s =
     (if startsWith s intro then
        (let r = drop (length intro) s; ds = takeWhile is_dig r
         in if ds \<noteq> [] \<and> startsWith (drop (length ds) r) '';''
            then Some (fromCharCode (val ds), length intro + length ds + 1)
            else None)
      else None)"

text \<open>\<open>/\n{3,}/g\<close> replaced by two line feeds.\<close>

definition blank_lines :: "string \<Rightarrow> (string \<times> nat) option" where
  "blank_lines s =
     (let run = takeWhile (\<lambda>c. c = newline) s
      in if 3 \<le> length run then Some ([newline, newline], length run) else None)"

text \<open>
  The expressions that \<open>convertHtmlToMarkdown\<close> replaces between the extraction and the
  re-insertion of the pre blocks, with their replacements, in the order of the source; the
  chain applies \<open>replace\<close> with the flag \<open>g\<close> for each of them and ends with \<open>trim\<close>. The signs \<open>\<times>\<close> and
  \<open>\<div>\<close> are the code units 215 and 247.
\<close>

definition markup_patterns ::
  "(nat \<Rightarrow> string) \<Rightarrow> (string \<times> string) list \<Rightarrow> (string \<Rightarrow> (string \<times> nat) option) list" where
  "markup_patterns fromCharCode imageMap' =
     [(img_markdown imageMap'),
      inline_code,
      (\<lambda>s. wrap ''**'' ''**'' (element (open_tag ''strong'') ''</strong>'' s)),
      (\<lambda>s. wrap ''*'' ''*'' (element (exact_tag ''<em>'') ''</em>'' s)),
      (drop_open_tag ''ul'' []),
      (literal ''</ul>'' []),
      (drop_open_tag ''ol'' []),
      (literal ''</ol>'' []),
      (\<lambda>s. wrap ''- '' [newline] (element (exact_tag ''<li>'') ''</li>'' s)),
      (drop_open_tag ''p'' [newline]),
      (literal ''</p>'' [newline]),
      br_tag,
      (\<lambda>s. wrap ''# '' [newline] (element (open_tag ''h1'') ''</h1>'' s)),
      (\<lambda>s. wrap ''## '' [newline] (element (open_tag ''h2'') ''</h2>'' s)),
      (\<lambda>s. wrap ''### '' [newline] (element (open_tag ''h3'') ''</h3>'' s)),
      (drop_open_tag ''div'' []),
      (literal ''</div>'' []),
      (drop_open_tag ''span'' []),
      (literal ''</span>'' []),
      (drop_open_tag ''font'' []),
      (literal ''</font>'' []),
      (literal ''&nbsp;'' '' ''),
      (literal ''&lt;'' ''<''),
      (literal ''&gt;'' ''>''),
      (literal ''&le;'' ''<=''),
      (literal ''&ge;'' ''>=''),
      (literal ''&amp;'' ''&''),
      (literal ''&quot;'' [quote]),
      (literal ''&#39;'' [CHR 0x27]),
      (literal ''&times;'' [CHR 0xD7]),
      (literal ''&divide;'' [CHR 0xF7]),
      (char_ref fromCharCode ''&#x'' (\<lambda>c. hex_digit c \<noteq> None) hex_value),
      (char_ref fromCharCode ''&#'' is_digit digits_value),
      any_tag,
      blank_lines]"

definition markup_steps :: "(nat \<Rightarrow> string) \<Rightarrow> (string \<times> string) list \<Rightarrow> (string \<Rightarrow> string) list" where
  "markup_steps fromCharCode imageMap' = map gsub (markup_patterns fromCharCode imageMap') @ [trim]"

subsection \<open>Re-insertion of the pre blocks\<close>

text \<open>
  \<^verbatim>\<open>
  for (let i = 0; i < preBlocks.length; i++) {
      markdown = markdown.replace(`___PRE_BLOCK_${i}___`, preBlocks[i]);
  }
  \<close>
  The pattern is a string, so only its first occurrence is replaced, and the block is used
  as a replacement template.
\<close>

fun reinsert :: "nat \<Rightarrow> string list \<Rightarrow> string \<Rightarrow> string" where
  "reinsert i [] md = md"
| "reinsert i (block # preBlocks) md =
     reinsert (Suc i) preBlocks (replace_first (placeholder i) block md)"

definition convertHtmlToMarkdown ::
  "(nat \<Rightarrow> string) \<Rightarrow> string \<Rightarrow> (string \<times> string) list \<Rightarrow> js_error + string" where
  "convertHtmlToMarkdown fromCharCode html imageMap' =
     (case extract_pre 0 html of
        Inl e \<Rightarrow> Inl e
      | Inr (htmlWithPlaceholders, preBlocks) \<Rightarrow>
          Inr (reinsert 0 preBlocks
                 (foldl (\<lambda>s f. f s) htmlWithPlaceholders (markup_steps fromCharCode imageMap'))))"

section \<open>downloadProblem\<close>

subsection \<open>The answers of the remote side\<close>

text \<open>
  What the remote side and the session file answer while one problem is downloaded is an
  argument of the model. Of the question data only the fields that steer the control flow
  are kept: the content and the code snippets.
\<close>

record snippet =
  langSlug :: string
  code :: "string option"

record question_data =
  q_content :: "string option"
  codeSnippets :: "snippet list option"

datatype question_response = RequestFailed string | NoQuestion | Question question_data

record solution =
  solution_id :: string
  title :: string
  post_content :: "string option"
  voteCount :: int
  username :: string

datatype discuss_response = DiscussRequestFailed | NoQuestionSolutions | Solutions "solution list"

datatype official_response = OfficialRequestFailed | NoSolution | OfficialSolution "string option"

record user =
  user_name :: string
  paid :: bool

record remote =
  cookies :: bool
  getUser :: "user option"
  questionContent :: "nat \<Rightarrow> question_response"
  description_http :: http
  questionSolution :: official_response
  official_http :: http
  communitySolutions_of :: "nat \<Rightarrow> discuss_response"
  community_http :: "nat \<Rightarrow> http"
  fromCharCode :: "nat \<Rightarrow> string"

text \<open>
  \<open>getProblemDescription\<close>, with \<open>fetchFromLeetCodeAPI\<close>: without session cookies, when the
  request fails and when the answer holds no question, an error is thrown.
\<close>

definition getProblemDescription :: "remote \<Rightarrow> nat \<Rightarrow> string \<Rightarrow> js_error + question_data" where
  "getProblemDescription env i problemSlug =
     (if \<not> cookies env then Inl (Error ''No session cookies found. Please login first.'')
      else case questionContent env i of
             RequestFailed m \<Rightarrow> Inl (Error (''LeetCode API request failed: '' @ m))
           | NoQuestion \<Rightarrow> Inl (Error (''Failed to fetch problem: '' @ problemSlug))
           | Question q \<Rightarrow> Inr q)"

text \<open>
  \<open>getDiscussSolution\<close>: \<open>no_solution\<close> without a slug, when the answer has no
  \<open>questionSolutions\<close> and when its list of solutions is empty; \<open>error\<close> without cookies and
  for everything thrown inside the \<open>try\<close> block, which covers a post without content.
\<close>

datatype discuss_result = Success string | No_solution | Failure

definition unescape :: "string \<Rightarrow> string" where
  "unescape s =
     gsub (literal [CHR 0x5C, quote] [quote])
       (gsub (literal [CHR 0x5C, CHR 0x27] [CHR 0x27])
          (gsub (literal [CHR 0x5C, CHR ''t''] [CHR 0x09])
             (gsub (literal [CHR 0x5C, CHR ''n''] [newline]) s)))"

definition getDiscussSolution :: "remote \<Rightarrow> nat \<Rightarrow> string \<Rightarrow> string \<Rightarrow> string \<Rightarrow> discuss_result" where
  "getDiscussSolution env i problemSlug language problemPath' =
     (if problemSlug = [] then No_solution
      else if \<not> cookies env then Failure
      else case communitySolutions_of env i of
             DiscussRequestFailed \<Rightarrow> Failure
           | NoQuestionSolutions \<Rightarrow> No_solution
           | Solutions [] \<Rightarrow> No_solution
           | Solutions (sol # _) \<Rightarrow>
               (case post_content sol of
                  None \<Rightarrow> Failure
                | Some c \<Rightarrow>
                    (let solutionUrl =
                           ''https://leetcode.com/problems/'' @ problemSlug @ ''/solutions/'' @
                           solution_id sol @ ''/'';
                         md =
                           ''# '' @ title sol @ [newline, newline] @
                           ''**Author:** '' @ username sol @ [newline] @
                           ''**Votes:** '' @ show_int (voteCount sol) @ [newline] @
                           ''**Link:** ['' @ solutionUrl @ '']('' @ solutionUrl @ '')'' @
                           [newline, newline] @ ''---'' @ [newline, newline] @ unescape c
                     in Success
                          (markdown
                             (downloadImageFromMarkdown (community_http env i) md
                                (path_join [problemPath', ''solutions'', ''community'', language,
                                   ''images''])
                                ''./images'')))))"

text \<open>\<open>getOfficialSolution\<close>: the markdown of the official solution, or \<open>null\<close>.\<close>

definition getOfficialSolution :: "remote \<Rightarrow> string \<Rightarrow> string \<Rightarrow> string option" where
  "getOfficialSolution env problemSlug problemPath' =
     (if problemSlug = [] then None
      else if \<not> cookies env then None
      else case questionSolution env of
             OfficialRequestFailed \<Rightarrow> None
           | NoSolution \<Rightarrow> None
           | OfficialSolution c \<Rightarrow>
               (let solutionUrl = ''https://leetcode.com/problems/'' @ problemSlug @ ''/solution/'';
                    header =
                      ''# Official Solution'' @ [newline, newline] @
                      ''**Link:** ['' @ solutionUrl @ '']('' @ solutionUrl @ '')'' @
                      [newline, newline] @ ''---'' @ [newline, newline]
                in Some
                     (markdown
                        (downloadImageFromMarkdown (official_http env)
                           (header @ (case c of None \<Rightarrow> ''null'' | Some t \<Rightarrow> t))
                           (path_join [problemPath', ''solutions'', ''official'', ''images''])
                           ''./images''))))"

subsection \<open>The function\<close>

definition initial_status :: "problem \<Rightarrow> download_status" where
  "initial_status p =
     \<lparr>problemId = pid p, problemName = name p,
      description = \<lparr>desc_success = False, desc_formats = []\<rparr>,
      templates = \<lparr>success = False, count = 0, total = 0, languages = []\<rparr>,
      officialSolution = \<lparr>success = False, count = 0, total = 0, languages = []\<rparr>,
      communitySolutions = \<lparr>success = False, count = 0, total = 0, languages = []\<rparr>,
      errors = []\<rparr>"

text \<open>
  \<^verbatim>\<open>
  if (!questionData.content) {
      const user = getUser();
      const isPremiumUser = user && user.paid;
      if (problem.locked && isPremiumUser) {
          throw new Error('SESSION_EXPIRED: Download premium content failed. ...');
      } else if (problem.locked) {
          throw new Error('Premium problem requires premium account');
      } else {
          throw new Error('SESSION_EXPIRED: Download failed. Session may have expired. ...');
      }
  }
  \<close>
\<close>

definition isPremiumUser :: "remote \<Rightarrow> bool" where
  "isPremiumUser env = (case getUser env of None \<Rightarrow> False | Some u \<Rightarrow> paid u)"

definition check_content :: "problem \<Rightarrow> remote \<Rightarrow> question_data \<Rightarrow> js_error + string" where
  "check_content p env questionData =
     (case q_content questionData of
        Some (c # cs) \<Rightarrow> Inr (c # cs)
      | _ \<Rightarrow>
          if locked p \<and> isPremiumUser env then
            Inl (Error (''SESSION_EXPIRED: Download premium content failed. '' @
                        ''Please re-login: leetcode-fetch logout && leetcode-fetch login''))
          else if locked p then Inl (Error ''Premium problem requires premium account'')
          else
            Inl (Error (''SESSION_EXPIRED: Download failed. Session may have expired. '' @
                        ''Please re-login: leetcode-fetch logout && leetcode-fetch login'')))"

text \<open>
  \<^verbatim>\<open>
  if (CONFIG.fetchOfficialSolution && problemSlug) {
      downloadStatus.officialSolution.total = 1;
      const officialSolutionResult = await retryAsync(() => getOfficialSolution(...));
      if (officialSolutionResult) {
          ...
          downloadStatus.officialSolution.success = true;
          downloadStatus.officialSolution.count = 1;
      } else {
          downloadStatus.officialSolution.total = 0;
      }
  }
  \<close>
  \<open>getOfficialSolution\<close> and \<open>getDiscussSolution\<close> throw nothing, so \<open>retryAsync\<close> calls them
  once and returns their result.
\<close>

definition official_step :: "config \<Rightarrow> remote \<Rightarrow> problem \<Rightarrow> string \<Rightarrow> download_status \<Rightarrow> download_status" where
  "official_step CONFIG env p problemPath' st =
     (if fetchOfficialSolution CONFIG \<and> slug p \<noteq> [] then
        (case getOfficialSolution env (slug p) problemPath' of
           Some md \<Rightarrow> st\<lparr>officialSolution := (officialSolution st)\<lparr>success := True, count := 1, total := 1\<rparr>\<rparr>
         | None \<Rightarrow> st\<lparr>officialSolution := (officialSolution st)\<lparr>total := 0\<rparr>\<rparr>)
      else st)"

text \<open>
  One round of the loop over the languages of the problem; \<open>i\<close> is the index of the language
  and \<open>lang\<close> its \<open>langSlug\<close>.
  \<^verbatim>\<open>
  if (CONFIG.fetchTemplates) {
      const snippet = availableLanguages.find(s => s.langSlug === lang.name);
      if (snippet && snippet.code) {
          ...
          downloadStatus.templates.count++;
          downloadStatus.templates.languages.push(lang.name);
      }
  }
  if (CONFIG.fetchSolutions && problemSlug) {
      const solutionResult = await retryAsync(() => getDiscussSolution(...));
      if (solutionResult.status === 'success') {
          ...
          downloadStatus.communitySolutions.count++;
          downloadStatus.communitySolutions.languages.push(lang.name);
      } else if (solutionResult.status === 'no_solution') {
          downloadStatus.communitySolutions.total--;
      }
  }
  \<close>
\<close>

definition template_step :: "config \<Rightarrow> snippet list \<Rightarrow> string \<Rightarrow> download_status \<Rightarrow> download_status" where
  "template_step CONFIG availableLanguages lang st =
     (if fetchTemplates CONFIG then
        (case find (\<lambda>s. langSlug s = lang) availableLanguages of
           Some s \<Rightarrow>
             (case code s of
                Some (c # cs) \<Rightarrow>
                  st\<lparr>templates := (templates st)
                       \<lparr>count := count (templates st) + 1,
                        languages := languages (templates st) @ [lang]\<rparr>\<rparr>
              | _ \<Rightarrow> st)
         | None \<Rightarrow> st)
      else st)"

definition community_step ::
  "config \<Rightarrow> remote \<Rightarrow> problem \<Rightarrow> string \<Rightarrow> nat \<Rightarrow> string \<Rightarrow> download_status \<Rightarrow> download_status" where
  "community_step CONFIG env p problemPath' i lang st =
     (if fetchSolutions CONFIG \<and> slug p \<noteq> [] then
        (case getDiscussSolution env i (slug p) lang problemPath' of
           Success md \<Rightarrow>
             st\<lparr>communitySolutions := (communitySolutions st)
                  \<lparr>count := count (communitySolutions st) + 1,
                   languages := languages (communitySolutions st) @ [lang]\<rparr>\<rparr>
         | No_solution \<Rightarrow>
             st\<lparr>communitySolutions := (communitySolutions st)
                  \<lparr>total := total (communitySolutions st) - 1\<rparr>\<rparr>
         | Failure \<Rightarrow> st)
      else st)"

fun language_loop ::
  "config \<Rightarrow> remote \<Rightarrow> problem \<Rightarrow> string \<Rightarrow> snippet list \<Rightarrow> nat \<Rightarrow> string list \<Rightarrow>
   download_status \<Rightarrow> download_status" where
  "language_loop CONFIG env p problemPath' availableLanguages i [] st = st"
| "language_loop CONFIG env p problemPath' availableLanguages i (lang # langs) st =
     language_loop CONFIG env p problemPath' availableLanguages (Suc i) langs
       (community_step CONFIG env p problemPath' i lang
          (template_step CONFIG availableLanguages lang st))"

definition finish_status :: "config \<Rightarrow> download_status \<Rightarrow> download_status" where
  "finish_status CONFIG st =
     (let st1 = st\<lparr>description := \<lparr>desc_success = True, desc_formats = formats CONFIG\<rparr>\<rparr>;
          st2 = (if count (templates st1) > 0
                 then st1\<lparr>templates := (templates st1)\<lparr>success := True\<rparr>\<rparr> else st1)
      in if count (communitySolutions st2) > 0
         then st2\<lparr>communitySolutions := (communitySolutions st2)\<lparr>success := True\<rparr>\<rparr> else st2)"

text \<open>
  \<open>downloadProblem\<close>, as far as the status it returns and the errors it throws go. The files
  it writes are not recorded, and the file system is taken to succeed.
\<close>

definition downloadProblem :: "problem \<Rightarrow> string \<Rightarrow> config \<Rightarrow> remote \<Rightarrow> js_error + download_status" where
  "downloadProblem p outputFolder CONFIG env =
     (case outcome (retryAsync (\<lambda>i. getProblemDescription env i (slug p)) MAX_RETRIES RETRY_DELAY) of
        Thrown e \<Rightarrow> Inl e
      | Undefined \<Rightarrow> Inl (TypeError ''Cannot read properties of undefined (reading 'content')'')
      | Returned questionData \<Rightarrow>
          (case check_content p env questionData of
             Inl e \<Rightarrow> Inl e
           | Inr bodyHtml \<Rightarrow>
               (let availableLanguages =
                      (case codeSnippets questionData of None \<Rightarrow> [] | Some l \<Rightarrow> l);
                    filteredLanguages = map langSlug availableLanguages;
                    images = processHtmlBody (description_http env) bodyHtml
                               (problemPath outputFolder p)
                in case convertHtmlToMarkdown (fromCharCode env) bodyHtml (imageMap images) of
                     Inl e \<Rightarrow> Inl e
                   | Inr markdownBody \<Rightarrow>
                       (let st1 = official_step CONFIG env p (problemPath outputFolder p)
                                    (initial_status p);
                            st2 = st1\<lparr>templates := (templates st1)
                                         \<lparr>total := int (length filteredLanguages)\<rparr>,
                                       communitySolutions := (communitySolutions st1)
                                         \<lparr>total := int (length filteredLanguages)\<rparr>\<rparr>;
                            st3 = language_loop CONFIG env p (problemPath outputFolder p)
                                    availableLanguages 0 filteredLanguages st2
                        in Inr (finish_status CONFIG st3)))))"

text \<open>
  The results that the loop over the languages receives from \<open>getDiscussSolution\<close>, language by
  language, starting at index \<open>i\<close>.
\<close>

fun community_answers :: "remote \<Rightarrow> problem \<Rightarrow> string \<Rightarrow> nat \<Rightarrow> string list \<Rightarrow> discuss_result list" where
  "community_answers env p problemPath' i [] = []"
| "community_answers env p problemPath' i (lang # langs) =
     getDiscussSolution env i (slug p) lang problemPath' #
     community_answers env p problemPath' (Suc i) langs"

definition is_success :: "discuss_result \<Rightarrow> bool" where
  "is_success r = (case r of Success _ \<Rightarrow> True | _ \<Rightarrow> False)"

text \<open>The message of the error that \<open>downloadProblem\<close> throws for a free problem without content.\<close>

definition session_expired_message :: string where
  "session_expired_message =
     ''SESSION_EXPIRED: Download failed. Session may have expired. '' @
     ''Please re-login: leetcode-fetch logout && leetcode-fetch login''"

section \<open>The download of all problems\<close>

subsection \<open>The progress store\<close>

text \<open>
  \<open>completedProblems\<close> is a \<open>Set\<close> of ids and \<open>failedProblems\<close> an object from ids to the details
  of the failure. The time stamps \<open>lastAttempt\<close> and \<open>lastUpdated\<close> are left out. Every value of
  \<open>failedProblems\<close> is an object, hence truthy.
\<close>

record failure_detail =
  failed_name :: string
  failed_slug :: string
  reasons :: "string list"
  snapshot :: "(string \<times> string) list"

record progress =
  completedProblems :: "string set"
  failedProblems :: "string \<rightharpoonup> failure_detail"

definition empty_progress :: progress where
  "empty_progress = \<lparr>completedProblems = {}, failedProblems = Map.empty\<rparr>"

subsection \<open>The state of a run\<close>

text \<open>
  The workers of a batch run interleaved on one thread: a worker is suspended while
  \<open>downloadProblem\<close> is under way and while \<open>fs.writeJson\<close> writes the progress file, and the
  code between two such points runs without interruption. A worker is \<open>Running\<close> until its
  \<open>downloadProblem\<close> settles, then \<open>Writing\<close> the progress it has handed to \<open>fs.writeJson\<close> (the
  argument is built from the store at that moment; the flag tells whether \<open>process.exit(1)\<close>
  follows the write), then \<open>Done\<close>.
\<close>

datatype worker_status = Running | Writing progress bool | Done

record run_state =
  completedProblems_now :: "string set"
  failedProblems_now :: "string \<rightharpoonup> failure_detail"
  completed :: nat
  failed :: nat
  skipped :: nat
  alreadyDownloaded :: nat
  shouldStop :: bool
  progress_file :: "progress option"
  exit_code :: "int option"
  returned :: bool
  waiting :: "(problem \<times> nat) list"
  batch :: "((problem \<times> nat) \<times> worker_status) list"
  attempted :: "string list"

definition store :: "run_state \<Rightarrow> progress" where
  "store s = \<lparr>completedProblems = completedProblems_now s, failedProblems = failedProblems_now s\<rparr>"

text \<open>
  The loop that builds \<open>problemsToDownload\<close>: locked problems are skipped for a user without
  premium, problems of the completed set are counted as downloaded already.
\<close>

fun select_problems :: "bool \<Rightarrow> string set \<Rightarrow> (problem \<times> nat) list \<Rightarrow> run_state \<Rightarrow> run_state" where
  "select_problems premium done [] s = s"
| "select_problems premium done ((p, i) # ps) s =
     select_problems premium done ps
       (if locked p \<and> \<not> premium then s\<lparr>skipped := Suc (skipped s)\<rparr>
        else if pid p \<in> done then s\<lparr>alreadyDownloaded := Suc (alreadyDownloaded s)\<rparr>
        else s\<lparr>waiting := waiting s @ [(p, i)]\<rparr>)"

text \<open>
  One turn of the batch loop:
  \<^verbatim>\<open>
  for (let i = 0; i < problemsToDownload.length; i += CONFIG.concurrency) {
      const batch = problemsToDownload.slice(i, i + CONFIG.concurrency);
      await Promise.all(batch.map(downloadWorker));
      if (shouldStop) break;
  }
  \<close>
  \<open>dispatch\<close> calls \<open>downloadWorker\<close> for every problem of the next batch; the worker returns
  at once when \<open>shouldStop\<close> is set and calls \<open>downloadProblem\<close> otherwise. When no problem is
  left the loop ends and \<open>main\<close> returns. \<open>CONFIG.concurrency\<close> is positive, \<open>parseArgs\<close> stores
  nothing else: a batch has that many problems, and all that are left when it is \<open>Infinity\<close>
  (\<open>i\<close> is \<open>Infinity\<close> then and the loop ends). For any other value the model takes an empty
  batch.
\<close>

definition batch_size :: "number \<Rightarrow> nat \<Rightarrow> nat" where
  "batch_size c left =
     (case c of Num k \<Rightarrow> nat k | Infinity \<Rightarrow> left | NegInfinity \<Rightarrow> 0 | NaN \<Rightarrow> 0)"

definition dispatch :: "config \<Rightarrow> run_state \<Rightarrow> run_state" where
  "dispatch CONFIG s =
     (if waiting s = [] then s\<lparr>batch := [], returned := True\<rparr>
      else
        (let n = batch_size (concurrency CONFIG) (length (waiting s));
             next = take n (waiting s)
         in s\<lparr>waiting := drop n (waiting s),
              batch := map (\<lambda>w. (w, if shouldStop s then Done else Running)) next,
              attempted := attempted s @ (if shouldStop s then [] else map (\<lambda>(p, i). pid p) next)\<rparr>))"

text \<open>When every worker of the batch is done, \<open>Promise.all\<close> resolves and the loop goes on.\<close>

definition advance :: "config \<Rightarrow> run_state \<Rightarrow> run_state" where
  "advance CONFIG s =
     (if \<forall>w \<in> set (batch s). snd w = Done
      then (if shouldStop s then s\<lparr>returned := True\<rparr> else dispatch CONFIG s)
      else s)"

definition status_snapshot :: "download_status \<Rightarrow> (string \<times> string) list" where
  "status_snapshot status =
     [(''description'', (if desc_success (description status) then ''1'' else ''0'') @ ''/1''),
      (''templates'', ratio (templates status)),
      (''official'', ratio (officialSolution status)),
      (''community'', ratio (communitySolutions status))]"

text \<open>
  The body of \<open>downloadWorker\<close> from the point where \<open>downloadProblem\<close> has settled up to the
  call of \<open>fs.writeJson\<close>.
\<close>

definition settle :: "config \<Rightarrow> problem \<Rightarrow> js_error + download_status \<Rightarrow> run_state \<Rightarrow> run_state \<times> bool" where
  "settle CONFIG p result s =
     (case result of
        Inr status \<Rightarrow>
          if isFullyComplete CONFIG status then
            (s\<lparr>completed := Suc (completed s),
               completedProblems_now := insert (pid p) (completedProblems_now s),
               failedProblems_now := (failedProblems_now s)(pid p := None)\<rparr>, False)
          else
            (s\<lparr>failed := Suc (failed s),
               failedProblems_now := (failedProblems_now s)(pid p \<mapsto>
                 \<lparr>failed_name = name p, failed_slug = slug p,
                  reasons = failureReasons CONFIG status,
                  snapshot = status_snapshot status\<rparr>)\<rparr>, False)
      | Inl error \<Rightarrow>
          if startsWith (message error) ''SESSION_EXPIRED:'' then (s\<lparr>shouldStop := True\<rparr>, True)
          else
            (s\<lparr>failed := Suc (failed s),
               failedProblems_now := (failedProblems_now s)(pid p \<mapsto>
                 \<lparr>failed_name = name p, failed_slug = slug p,
                  reasons = [''Exception: '' @ message error],
                  snapshot = []\<rparr>)\<rparr>, False))"

text \<open>
  The events of a run: the \<open>downloadProblem\<close> of worker \<open>k\<close> of the batch settles, or the write
  that worker \<open>k\<close> has started is finished. \<open>world i\<close> holds the answers of the remote side for
  the problem at index \<open>i\<close> of the list. After \<open>process.exit\<close> and after the return of \<open>main\<close>
  nothing happens any more. A finished write puts the progress it was given into the file.
\<close>

datatype event = Settled nat | Flushed nat

definition step :: "config \<Rightarrow> string \<Rightarrow> (nat \<Rightarrow> remote) \<Rightarrow> event \<Rightarrow> run_state \<Rightarrow> run_state" where
  "step CONFIG outputFolder world ev s =
     (if exit_code s \<noteq> None \<or> returned s then s
      else case ev of
        Settled k \<Rightarrow>
          (if k < length (batch s) then
             (case batch s ! k of
                ((p, i), Running) \<Rightarrow>
                  (let (s', stop) = settle CONFIG p (downloadProblem p outputFolder CONFIG (world i)) s
                   in s'\<lparr>batch := (batch s)[k := ((p, i), Writing (store s') stop)]\<rparr>)
              | _ \<Rightarrow> s)
           else s)
      | Flushed k \<Rightarrow>
          (if k < length (batch s) then
             (case batch s ! k of
                ((p, i), Writing written stop) \<Rightarrow>
                  (if stop then s\<lparr>progress_file := Some written, exit_code := Some 1\<rparr>
                   else advance CONFIG
                          (s\<lparr>progress_file := Some written,
                             batch := (batch s)[k := ((p, i), Done)]\<rparr>))
              | _ \<Rightarrow> s)
           else s))"

definition run :: "config \<Rightarrow> string \<Rightarrow> (nat \<Rightarrow> remote) \<Rightarrow> event list \<Rightarrow> run_state \<Rightarrow> run_state" where
  "run CONFIG outputFolder world evs s = foldl (\<lambda>s ev. step CONFIG outputFolder world ev s) s evs"

text \<open>
  \<open>main\<close> without a problem id, from the list of problems and the progress file found (\<open>None\<close>
  when there is none or it cannot be read) to the dispatch of the first batch.
\<close>

definition start :: "config \<Rightarrow> bool \<Rightarrow> problem list \<Rightarrow> progress option \<Rightarrow> run_state" where
  "start CONFIG premium problems found =
     (let loaded = (case found of None \<Rightarrow> empty_progress | Some pr \<Rightarrow> pr)
      in dispatch CONFIG
           (select_problems premium (completedProblems loaded)
              (zip problems [0..<length problems])
              \<lparr>completedProblems_now = completedProblems loaded,
               failedProblems_now = failedProblems loaded,
               completed = 0, failed = 0, skipped = 0, alreadyDownloaded = 0,
               shouldStop = False, progress_file = found, exit_code = None, returned = False,
               waiting = [], batch = [], attempted = []\<rparr>))"

definition main :: "config \<Rightarrow> bool \<Rightarrow> string \<Rightarrow> (nat \<Rightarrow> remote) \<Rightarrow> problem list \<Rightarrow>
    progress option \<Rightarrow> event list \<Rightarrow> run_state" where
  "main CONFIG premium outputFolder world problems found evs =
     run CONFIG outputFolder world evs (start CONFIG premium problems found)"

section \<open>Example values\<close>

definition example_config :: config where
  "example_config =
     \<lparr>cfg_problemId = None, formats = [''md''], fetchTemplates = True,
      fetchSolutions = False, fetchOfficialSolution = True, concurrency = Num 5\<rparr>"

definition example_partial_status :: download_status where
  "example_partial_status =
     \<lparr>problemId = ''1'', problemName = ''Two Sum'',
      description = \<lparr>desc_success = True, desc_formats = [''md'']\<rparr>,
      templates = \<lparr>success = True, count = 2, total = 3, languages = [''cpp'', ''java'']\<rparr>,
      officialSolution = \<lparr>success = True, count = 1, total = 1, languages = []\<rparr>,
      communitySolutions = \<lparr>success = False, count = 0, total = 3, languages = []\<rparr>,
      errors = []\<rparr>"

text \<open>Problem 50 of the catalogue: its title and its slug differ beyond case and spaces.\<close>

definition example_pow :: problem where
  "example_pow =
     \<lparr>pid = ''50'', name = ''Pow(x, n)'', slug = ''powx-n'', difficulty = ''Medium'',
      locked = False, tags = [''math'', ''recursion''], companies = []\<rparr>"

text \<open>
  A remote side for a problem with two languages: a community solution exists for the
  first one and none for the second one; there is no official solution.
\<close>

definition example_remote :: remote where
  "example_remote =
     \<lparr>cookies = True,
      getUser = Some \<lparr>user_name = ''ann'', paid = False\<rparr>,
      questionContent = (\<lambda>i. Question
        \<lparr>q_content = Some ''<p>Add <code>a</code> and <code>b</code>.</p>'',
         codeSnippets = Some [\<lparr>langSlug = ''cpp'', code = Some ''int add();''\<rparr>,
                              \<lparr>langSlug = ''java'', code = Some ''class Solution {}''\<rparr>]\<rparr>),
      description_http = (\<lambda>n url. True),
      questionSolution = NoSolution,
      official_http = (\<lambda>n url. True),
      communitySolutions_of = (\<lambda>i. if i = 0
        then Solutions [\<lparr>solution_id = ''11'', title = ''Short'', post_content = Some ''a + b'',
                          voteCount = 3, username = ''bob''\<rparr>]
        else Solutions []),
      community_http = (\<lambda>i n url. True),
      fromCharCode = (\<lambda>n. [char_of n])\<rparr>"

text \<open>A remote side whose session has lapsed: the question comes back without content.\<close>

definition expired_remote :: remote where
  "expired_remote =
     example_remote\<lparr>questionContent := (\<lambda>i. Question \<lparr>q_content = None, codeSnippets = None\<rparr>)\<rparr>"

definition example_sum :: problem where
  "example_sum =
     \<lparr>pid = ''7'', name = ''Sum'', slug = ''sum'', difficulty = ''Easy'',
      locked = False, tags = [''math''], companies = []\<rparr>"

definition example_add :: problem where
  "example_add =
     \<lparr>pid = ''8'', name = ''Add'', slug = ''add'', difficulty = ''Easy'',
      locked = False, tags = [''math''], companies = []\<rparr>"

text \<open>The status of the download of \<open>example_add\<close> from \<open>example_remote\<close>.\<close>

definition example_add_status :: download_status where
  "example_add_status =
     \<lparr>problemId = ''8'', problemName = ''Add'',
      description = \<lparr>desc_success = True, desc_formats = [''html'', ''md'', ''raw'']\<rparr>,
      templates = \<lparr>success = True, count = 2, total = 2, languages = [''cpp'', ''java'']\<rparr>,
      officialSolution = \<lparr>success = False, count = 0, total = 0, languages = []\<rparr>,
      communitySolutions = \<lparr>success = True, count = 1, total = 1, languages = [''cpp'']\<rparr>,
      errors = []\<rparr>"

text \<open>
  A run over the two problems \<open>example_sum\<close> and \<open>example_add\<close>, in one batch: the session has
  lapsed for the first one, the second one downloads in full.
\<close>

definition example_world :: "nat \<Rightarrow> remote" where
  "example_world i = (if i = 0 then expired_remote else example_remote)"

definition example_started :: run_state where
  "example_started = start default_config False [example_sum, example_add] None"



text \<open>The progress with problem 8 completed and nothing else.\<close>

definition example_add_progress :: progress where
  "example_add_progress = \<lparr>completedProblems = {''8''}, failedProblems = Map.empty\<rparr>"
section \<open>States of a run\<close>

text \<open>
  The abort is under way: the flag is set and worker \<open>k\<close>, on problem \<open>p\<close>, is writing the
  progress \<open>pr\<close>, after which it ends the process.
\<close>

definition aborting :: "nat \<Rightarrow> problem \<Rightarrow> nat \<Rightarrow> progress \<Rightarrow> run_state \<Rightarrow> bool" where
  "aborting k p i pr s \<longleftrightarrow>
     shouldStop s \<and> \<not> returned s \<and> k < length (batch s) \<and> batch s ! k = ((p, i), Writing pr True)"


text \<open>
  The ids that the run has still to settle: those of the running workers of the batch and
  those of the problems that wait for a later batch.
\<close>

definition running_ids :: "((problem \<times> nat) \<times> worker_status) list \<Rightarrow> string list" where
  "running_ids b = map (\<lambda>w. pid (fst (fst w))) (filter (\<lambda>w. snd w = Running) b)"



section \<open>Properties of patterns and texts\<close>




text \<open>
  The two kinds of block that the expression of \<open>convertHtmlToMarkdown\<close> looks for, with
  their content, and a block as the expression takes it: the content of a \<open><pre>\<close> block
  does not begin with \<open><code>\<close> and holds no \<open></pre>\<close>, also not together with the closing tag
  behind it; the content of a \<open><pre><code>\<close> block is not empty and holds no
  \<open></code></pre>\<close>.
\<close>

datatype block = Pre string | PreCode string










text \<open>
  An image of a markdown document, \<open>![alt](target)\<close>; an alternative text that the expressions
  of \<open>downloadImageFromMarkdown\<close> take as one (no \<open>]\<close> and no line terminator); and a URL
  that they take as a remote one (\<open>http://\<close> or \<open>https://\<close>, at least one more code unit, and
  no \<open>)\<close>).
\<close>

definition image_link :: "string \<Rightarrow> string \<Rightarrow> string" where
  "image_link alt target = ''!['' @ alt @ '']('' @ target @ '')''"

definition alt_text :: "string \<Rightarrow> bool" where
  "alt_text a \<longleftrightarrow> (\<forall>c \<in> set a. c \<noteq> CHR '']'' \<and> \<not> is_line_terminator c)"

definition remote_url :: "string \<Rightarrow> bool" where
  "remote_url u \<longleftrightarrow>
     CHR '')'' \<notin> set u \<and>
     (startsWith u ''https://'' \<and> 8 < length u \<or> startsWith u ''http://'' \<and> 7 < length u)"
section \<open>Properties of retryAsync\<close>

lemma retry_loop_success:
  assumes "k < n" and "i \<le> k" and "\<forall>j. i \<le> j \<and> j < k \<longrightarrow> isl (fn j)" and "fn k = Inr v"
  shows "retry_loop fn n d i slept =
           \<lparr>outcome = Returned v, calls = Suc k, sleeps = slept @ backoff d i k\<rparr>"
  using assms
proof (induction "k - i" arbitrary: i slept)
  case 0
  then have "i = k" by simp
  with 0 show ?case
    by (simp add: retry_loop.simps [of fn n d k] backoff_def)
next
  case (Suc m)
  then have lt: "i < k" by simp
  with Suc.prems obtain e where e: "fn i = Inl e"
    by (cases "fn i") auto
  from lt Suc.prems have ne: "i \<noteq> n - 1" by simp
  have step: "retry_loop fn n d i slept = retry_loop fn n d (Suc i) (slept @ [d * (int i + 1)])"
    using lt Suc.prems(1) e ne by (simp add: retry_loop.simps [of fn n d i])
  have "retry_loop fn n d (Suc i) (slept @ [d * (int i + 1)]) =
          \<lparr>outcome = Returned v, calls = Suc k,
           sleeps = (slept @ [d * (int i + 1)]) @ backoff d (Suc i) k\<rparr>"
    using Suc.hyps(2) Suc.prems lt by (intro Suc.hyps(1)) auto
  moreover have "backoff d i k = (d * (int i + 1)) # backoff d (Suc i) k"
    using lt by (simp add: backoff_def upt_conv_Cons)
  ultimately show ?case using step by simp
qed

lemma retry_loop_exhausted:
  assumes "i < n" and "\<forall>j. i \<le> j \<and> j < n \<longrightarrow> fn j = Inl (err j)"
  shows "retry_loop fn n d i slept =
           \<lparr>outcome = Thrown (err (n - 1)), calls = n, sleeps = slept @ backoff d i (n - 1)\<rparr>"
  using assms
proof (induction "n - i" arbitrary: i slept)
  case 0
  then show ?case by simp
next
  case (Suc m)
  show ?case
  proof (cases "i = n - 1")
    case True
    from Suc.prems have "fn i = Inl (err i)" by simp
    with True Suc.prems(1)
    have "retry_loop fn n d i slept = \<lparr>outcome = Thrown (err i), calls = Suc i, sleeps = slept\<rparr>"
      by (subst retry_loop.simps) simp
    with True Suc.prems(1) show ?thesis
      by (simp add: backoff_def)
  next
    case False
    with Suc.prems have lt: "Suc i < n" by simp
    have step: "retry_loop fn n d i slept = retry_loop fn n d (Suc i) (slept @ [d * (int i + 1)])"
      using Suc.prems False by (simp add: retry_loop.simps [of fn n d i])
    have "retry_loop fn n d (Suc i) (slept @ [d * (int i + 1)]) =
            \<lparr>outcome = Thrown (err (n - 1)), calls = n,
             sleeps = (slept @ [d * (int i + 1)]) @ backoff d (Suc i) (n - 1)\<rparr>"
      using Suc.hyps(2) Suc.prems lt by (intro Suc.hyps(1)) auto
    moreover have "backoff d i (n - 1) = (d * (int i + 1)) # backoff d (Suc i) (n - 1)"
      using lt by (simp add: backoff_def upt_conv_Cons)
    ultimately show ?thesis using step by simp
  qed
qed

lemma retry_loop_calls: "i \<le> n \<Longrightarrow> calls (retry_loop fn n d i slept) \<le> n"
proof (induction fn n d i slept rule: retry_loop.induct)
  case (1 fn retries delay i slept)
  show ?case
  proof (cases "i < retries")
    case True
    then show ?thesis
      using 1 by (subst retry_loop.simps) (auto split: sum.splits)
  next
    case False
    with 1 show ?thesis by (subst retry_loop.simps) simp
  qed
qed

lemma backoff_one_indexed: "backoff d 0 k = map (\<lambda>i. d * int i) [1..<Suc k]"
proof -
  have "map (\<lambda>i. d * int i) [Suc 0..<Suc k] = map (\<lambda>i. d * int i) (map Suc [0..<k])"
    by (simp only: map_Suc_upt)
  then show ?thesis
    by (simp add: backoff_def comp_def add.commute)
qed

text \<open>
  C3. For every operation and every \<open>n \<ge> 1\<close>, \<open>retryAsync\<close> calls the operation at most \<open>n\<close>
  times. When the attempts \<open>1, ..., k\<close> fail and attempt \<open>k + 1 \<le> n\<close> succeeds, the value of
  that attempt is returned after \<open>k + 1\<close> calls and after the waits
  \<open>delay * 1, ..., delay * k\<close>, one after each failed attempt; in particular two failures
  followed by a success give the waits \<open>delay\<close> and \<open>2 * delay\<close>. When all \<open>n\<close> attempts fail,
  the error thrown by attempt \<open>n\<close> is thrown on, as it is, after the waits
  \<open>delay * 1, ..., delay * (n - 1)\<close>.
\<close>

theorem retryAsync_linear_backoff:
  fixes fn :: "nat \<Rightarrow> 'e + 'a"
  assumes "1 \<le> n"
  shows "calls (retryAsync fn n d) \<le> n \<and>
    (\<forall>k v. k < n \<and> (\<forall>j<k. isl (fn j)) \<and> fn k = Inr v \<longrightarrow>
       retryAsync fn n d =
         \<lparr>outcome = Returned v, calls = Suc k, sleeps = map (\<lambda>i. d * int i) [1..<Suc k]\<rparr>) \<and>
    (\<forall>v. 3 \<le> n \<and> isl (fn 0) \<and> isl (fn 1) \<and> fn 2 = Inr v \<longrightarrow>
       retryAsync fn n d = \<lparr>outcome = Returned v, calls = 3, sleeps = [d, 2 * d]\<rparr>) \<and>
    ((\<forall>j<n. \<exists>e. fn j = Inl e) \<longrightarrow>
       (\<exists>e. fn (n - 1) = Inl e \<and>
          retryAsync fn n d =
            \<lparr>outcome = Thrown e, calls = n, sleeps = map (\<lambda>i. d * int i) [1..<n]\<rparr>))"
proof -
  have bound: "calls (retryAsync fn n d) \<le> n"
    unfolding retryAsync_def by (rule retry_loop_calls) simp
  have first_success:
    "retryAsync fn n d =
       \<lparr>outcome = Returned v, calls = Suc k, sleeps = map (\<lambda>i. d * int i) [1..<Suc k]\<rparr>"
    if "k < n" and "\<forall>j<k. isl (fn j)" and "fn k = Inr v" for k v
    using retry_loop_success [of k n 0 fn v d "[]"] that
    by (simp add: retryAsync_def backoff_one_indexed)
  have third: "retryAsync fn n d = \<lparr>outcome = Returned v, calls = 3, sleeps = [d, 2 * d]\<rparr>"
    if "3 \<le> n" and "isl (fn 0)" and "isl (fn 1)" and "fn 2 = Inr v" for v
  proof -
    have "\<forall>j<2. isl (fn j)"
      using that(2,3) by (auto simp: less_Suc_eq numeral_2_eq_2)
    with first_success [of 2 v] that(1,4)
    have "retryAsync fn n d =
            \<lparr>outcome = Returned v, calls = Suc 2, sleeps = map (\<lambda>i. d * int i) [1..<Suc 2]\<rparr>"
      by simp
    moreover have "[1..<Suc 2] = [1, 2]"
      by (simp add: upt_conv_Cons)
    ultimately show ?thesis by simp
  qed
  have exhausted:
    "\<exists>e. fn (n - 1) = Inl e \<and>
       retryAsync fn n d =
         \<lparr>outcome = Thrown e, calls = n, sleeps = map (\<lambda>i. d * int i) [1..<n]\<rparr>"
    if all: "\<forall>j<n. \<exists>e. fn j = Inl e"
  proof -
    define err where "err j = projl (fn j)" for j
    have fails: "\<forall>j. 0 \<le> j \<and> j < n \<longrightarrow> fn j = Inl (err j)"
      using all by (auto simp: err_def)
    have "retry_loop fn n d 0 [] =
            \<lparr>outcome = Thrown (err (n - 1)), calls = n, sleeps = [] @ backoff d 0 (n - 1)\<rparr>"
      using assms fails by (intro retry_loop_exhausted) auto
    moreover have "fn (n - 1) = Inl (err (n - 1))"
      using fails assms by simp
    moreover have "Suc (n - 1) = n"
      using assms by simp
    ultimately show ?thesis
      by (auto simp: retryAsync_def backoff_one_indexed)
  qed
  from bound first_success third exhausted show ?thesis
    by blast
qed

theorem retryAsync_linear_backoff_witness:
  "(1::nat) \<le> 3 \<and>
   retryAsync (\<lambda>i. if i < 2 then Inl i else Inr True) 3 1000 =
     \<lparr>outcome = Returned True, calls = 3, sleeps = [1000, 2000]\<rparr> \<and>
   retryAsync (\<lambda>i. Inl i :: nat + bool) 3 1000 =
     \<lparr>outcome = Thrown 2, calls = 3, sleeps = [1000, 2000]\<rparr>"
proof -
  have n: "(1::nat) \<le> 3" by simp
  have up: "[1..<3] = [1, 2::nat]"
    by (simp add: upt_conv_Cons)
  have a: "retryAsync (\<lambda>i. if i < 2 then Inl i else Inr True) 3 1000 =
     \<lparr>outcome = Returned True, calls = 3, sleeps = [1000, 2000]\<rparr>"
    using retryAsync_linear_backoff [OF n, of "\<lambda>i. if i < 2 then Inl i else Inr True" 1000]
    by auto
  have b: "retryAsync (\<lambda>i. Inl i :: nat + bool) 3 1000 =
     \<lparr>outcome = Thrown 2, calls = 3, sleeps = [1000, 2000]\<rparr>"
    using retryAsync_linear_backoff [OF n, of "\<lambda>i. Inl i :: nat + bool" 1000] up
    by simp
  from n a b show ?thesis by simp
qed

section \<open>Properties of the completion verdict\<close>

lemma failureReasons_empty_if_complete_counts:
  "desc_success (description st) \<Longrightarrow>
   \<not> (fetchTemplates c \<and> count (templates st) < total (templates st)) \<Longrightarrow>
   \<not> (fetchOfficialSolution c \<and> count (officialSolution st) < total (officialSolution st)) \<Longrightarrow>
   \<not> (fetchSolutions c \<and> count (communitySolutions st) < total (communitySolutions st)) \<Longrightarrow>
   failureReasons c st = []"
  by (simp add: failureReasons_def)

text \<open>
  C4. For every download status and every combination of the flags \<open>fetchTemplates\<close>,
  \<open>fetchSolutions\<close> and \<open>fetchOfficialSolution\<close>: the item is fully complete exactly when the
  description succeeded and every requested kind has \<open>count = total\<close>; a requested kind with
  \<open>count < total\<close> makes the item incomplete and puts its reason, with the two counts, on the
  list of failure reasons; the counts of a kind that was not requested change neither the
  verdict nor the reasons.
\<close>

theorem completion_verdict:
  "(isFullyComplete c st \<longleftrightarrow>
      desc_success (description st) \<and>
      (fetchTemplates c \<longrightarrow> count (templates st) = total (templates st)) \<and>
      (fetchOfficialSolution c \<longrightarrow>
         count (officialSolution st) = total (officialSolution st)) \<and>
      (fetchSolutions c \<longrightarrow> count (communitySolutions st) = total (communitySolutions st))) \<and>
   (fetchTemplates c \<and> count (templates st) < total (templates st) \<longrightarrow>
      \<not> isFullyComplete c st \<and>
      ''Templates incomplete: '' @ show_int (count (templates st)) @ ''/'' @
        show_int (total (templates st)) \<in> set (failureReasons c st)) \<and>
   (fetchOfficialSolution c \<and> count (officialSolution st) < total (officialSolution st) \<longrightarrow>
      \<not> isFullyComplete c st \<and>
      ''Official solution incomplete: '' @ show_int (count (officialSolution st)) @ ''/'' @
        show_int (total (officialSolution st)) \<in> set (failureReasons c st)) \<and>
   (fetchSolutions c \<and> count (communitySolutions st) < total (communitySolutions st) \<longrightarrow>
      \<not> isFullyComplete c st \<and>
      ''Community solutions incomplete: '' @ show_int (count (communitySolutions st)) @ ''/'' @
        show_int (total (communitySolutions st)) \<in> set (failureReasons c st)) \<and>
   (\<not> fetchTemplates c \<longrightarrow>
      isFullyComplete c (st\<lparr>templates := r\<rparr>) = isFullyComplete c st \<and>
      failureReasons c (st\<lparr>templates := r\<rparr>) = failureReasons c st) \<and>
   (\<not> fetchOfficialSolution c \<longrightarrow>
      isFullyComplete c (st\<lparr>officialSolution := r\<rparr>) = isFullyComplete c st \<and>
      failureReasons c (st\<lparr>officialSolution := r\<rparr>) = failureReasons c st) \<and>
   (\<not> fetchSolutions c \<longrightarrow>
      isFullyComplete c (st\<lparr>communitySolutions := r\<rparr>) = isFullyComplete c st \<and>
      failureReasons c (st\<lparr>communitySolutions := r\<rparr>) = failureReasons c st)"
proof -
  have verdict: "isFullyComplete c st \<longleftrightarrow>
      desc_success (description st) \<and>
      (fetchTemplates c \<longrightarrow> count (templates st) = total (templates st)) \<and>
      (fetchOfficialSolution c \<longrightarrow>
         count (officialSolution st) = total (officialSolution st)) \<and>
      (fetchSolutions c \<longrightarrow> count (communitySolutions st) = total (communitySolutions st))"
    unfolding isFullyComplete_def by blast
  have t: "\<not> isFullyComplete c st \<and>
      ''Templates incomplete: '' @ show_int (count (templates st)) @ ''/'' @
        show_int (total (templates st)) \<in> set (failureReasons c st)"
    if "fetchTemplates c \<and> count (templates st) < total (templates st)"
    using that by (simp add: isFullyComplete_def failureReasons_def ratio_def)
  have o: "\<not> isFullyComplete c st \<and>
      ''Official solution incomplete: '' @ show_int (count (officialSolution st)) @ ''/'' @
        show_int (total (officialSolution st)) \<in> set (failureReasons c st)"
    if "fetchOfficialSolution c \<and> count (officialSolution st) < total (officialSolution st)"
    using that by (simp add: isFullyComplete_def failureReasons_def ratio_def)
  have s: "\<not> isFullyComplete c st \<and>
      ''Community solutions incomplete: '' @ show_int (count (communitySolutions st)) @ ''/'' @
        show_int (total (communitySolutions st)) \<in> set (failureReasons c st)"
    if "fetchSolutions c \<and> count (communitySolutions st) < total (communitySolutions st)"
    using that by (simp add: isFullyComplete_def failureReasons_def ratio_def)
  have nt: "isFullyComplete c (st\<lparr>templates := r\<rparr>) = isFullyComplete c st \<and>
      failureReasons c (st\<lparr>templates := r\<rparr>) = failureReasons c st"
    if "\<not> fetchTemplates c"
    using that by (simp add: isFullyComplete_def failureReasons_def)
  have no: "isFullyComplete c (st\<lparr>officialSolution := r\<rparr>) = isFullyComplete c st \<and>
      failureReasons c (st\<lparr>officialSolution := r\<rparr>) = failureReasons c st"
    if "\<not> fetchOfficialSolution c"
    using that by (simp add: isFullyComplete_def failureReasons_def)
  have ns: "isFullyComplete c (st\<lparr>communitySolutions := r\<rparr>) = isFullyComplete c st \<and>
      failureReasons c (st\<lparr>communitySolutions := r\<rparr>) = failureReasons c st"
    if "\<not> fetchSolutions c"
    using that by (simp add: isFullyComplete_def failureReasons_def)
  from verdict t o s nt no ns show ?thesis
    by blast
qed

theorem completion_verdict_witness:
  "fetchTemplates example_config \<and>
   count (templates example_partial_status) < total (templates example_partial_status) \<and>
   \<not> isFullyComplete example_config example_partial_status \<and>
   ''Templates incomplete: 2/3'' \<in> set (failureReasons example_config example_partial_status)"
proof -
  have requested: "fetchTemplates example_config \<and>
      count (templates example_partial_status) < total (templates example_partial_status)"
    by (simp add: example_config_def example_partial_status_def)
  have shown: "show_int (count (templates example_partial_status)) = ''2'' \<and>
      show_int (total (templates example_partial_status)) = ''3''"
    by (simp add: example_partial_status_def show_int_def show_nat.simps digit_char_def)
  from requested completion_verdict [of example_config example_partial_status]
  have "\<not> isFullyComplete example_config example_partial_status \<and>
      ''Templates incomplete: '' @ show_int (count (templates example_partial_status)) @ ''/'' @
        show_int (total (templates example_partial_status))
      \<in> set (failureReasons example_config example_partial_status)"
    by blast
  with requested shown show ?thesis
    by simp
qed

section \<open>Properties of parseArgs\<close>

lemma parseInt_undefined: "parseInt ''undefined'' = NaN"
  by (simp add: parseInt_def is_space_def is_digit_def)

lemma set_concurrency_None: "set_concurrency None c = c"
  by (simp add: set_concurrency_def parseInt_arg_def parseInt_undefined positive_def)

lemma set_concurrency_positive:
  "positive (concurrency c) \<Longrightarrow> positive (concurrency (set_concurrency a c))"
  by (simp add: set_concurrency_def Let_def)

lemma set_concurrency_cases:
  "concurrency (set_concurrency (Some v) c) = concurrency c \<or>
   parseInt v = concurrency (set_concurrency (Some v) c)"
  by (simp add: set_concurrency_def parseInt_arg_def Let_def)

lemma set_concurrency_rejects:
  "\<not> positive (parseInt v) \<Longrightarrow> set_concurrency (Some v) c = c"
  by (simp add: set_concurrency_def parseInt_arg_def Let_def)

lemma set_concurrency_accepts:
  "positive (parseInt v) \<Longrightarrow> set_concurrency (Some v) c = c\<lparr>concurrency := parseInt v\<rparr>"
  by (simp add: set_concurrency_def parseInt_arg_def Let_def)

lemma set_concurrency_other_fields:
  "cfg_problemId (set_concurrency a c) = cfg_problemId c \<and>
   formats (set_concurrency a c) = formats c \<and>
   fetchTemplates (set_concurrency a c) = fetchTemplates c \<and>
   fetchSolutions (set_concurrency a c) = fetchSolutions c \<and>
   fetchOfficialSolution (set_concurrency a c) = fetchOfficialSolution c"
  by (simp add: set_concurrency_def Let_def)

lemma concurrency_from_Cons: "concurrency_from args n \<Longrightarrow> concurrency_from (a # args) n"
  unfolding concurrency_from_def by (metis append_Cons)

lemma concurrency_from_Cons2: "concurrency_from args n \<Longrightarrow> concurrency_from (a # b # args) n"
  by (intro concurrency_from_Cons)

lemma concurrency_from_here:
  "flag = ''--concurrency'' \<or> flag = ''-c'' \<Longrightarrow> parseInt v = n \<Longrightarrow>
   concurrency_from (flag # v # post) n"
  unfolding concurrency_from_def by (metis append_Nil)

lemma parseArgs_loop_concurrency:
  "parseArgs_loop args c = Inr c' \<Longrightarrow> positive (concurrency c) \<Longrightarrow>
   positive (concurrency c') \<and> (concurrency c' = concurrency c \<or> concurrency_from args (concurrency c'))"
proof (induction args c rule: parseArgs_loop.induct)
  case (1 config)
  then show ?case by simp
next
  case (2 arg rest config)
  show ?case
  proof (cases "arg = ''--help'' \<or> arg = ''-h''")
    case True
    with "2.prems" show ?thesis by simp
  next
    case nohelp: False
    show ?thesis
    proof (cases "arg = ''--formats'' \<or> arg = ''-f''")
      case True
      show ?thesis
      proof (cases rest)
        case Nil
        with True nohelp "2.prems" show ?thesis by simp
      next
        case (Cons v rest')
        let ?c = "config\<lparr>formats := map (\<lambda>f. toLowerCase (trim f)) (split CHR '','' v)\<rparr>"
        from Cons True nohelp "2.prems" have run: "parseArgs_loop rest' ?c = Inr c'"
          by simp
        from "2.IH"(1) [OF nohelp True Cons run] "2.prems"(2)
        have "positive (concurrency c') \<and>
              (concurrency c' = concurrency config \<or> concurrency_from rest' (concurrency c'))"
          by simp
        with Cons show ?thesis
          by (auto intro: concurrency_from_Cons2)
      qed
    next
      case noformats: False
      show ?thesis
      proof (cases "arg = ''--no-templates''")
        case True
        with nohelp noformats "2.prems"
        have run: "parseArgs_loop rest (config\<lparr>fetchTemplates := False\<rparr>) = Inr c'"
          by simp
        from "2.IH"(2) [OF nohelp noformats True run] "2.prems"(2) show ?thesis
          by (auto intro: concurrency_from_Cons)
      next
        case not: False
        show ?thesis
        proof (cases "arg = ''--no-solutions''")
          case True
          with nohelp noformats not "2.prems"
          have run: "parseArgs_loop rest (config\<lparr>fetchSolutions := False\<rparr>) = Inr c'"
            by simp
          from "2.IH"(3) [OF nohelp noformats not True run] "2.prems"(2) show ?thesis
            by (auto intro: concurrency_from_Cons)
        next
          case nos: False
          show ?thesis
          proof (cases "arg = ''--no-official''")
            case True
            with nohelp noformats not nos "2.prems"
            have run: "parseArgs_loop rest (config\<lparr>fetchOfficialSolution := False\<rparr>) = Inr c'"
              by simp
            from "2.IH"(4) [OF nohelp noformats not nos True run] "2.prems"(2) show ?thesis
              by (auto intro: concurrency_from_Cons)
          next
            case noo: False
            show ?thesis
            proof (cases "arg = ''--concurrency'' \<or> arg = ''-c''")
              case True
              show ?thesis
              proof (cases rest)
                case Nil
                with True nohelp noformats not nos noo "2.prems" show ?thesis
                  by (simp add: set_concurrency_None)
              next
                case (Cons v rest')
                let ?c = "set_concurrency (Some v) config"
                from Cons True nohelp noformats not nos noo "2.prems"
                have run: "parseArgs_loop rest' ?c = Inr c'"
                  by simp
                have pos: "positive (concurrency ?c)"
                  using "2.prems"(2) by (rule set_concurrency_positive)
                from "2.IH"(5) [OF nohelp noformats not nos noo True Cons run pos]
                have *: "positive (concurrency c') \<and>
                  (concurrency c' = concurrency ?c \<or> concurrency_from rest' (concurrency c'))" .
                show ?thesis
                proof (cases "concurrency_from rest' (concurrency c')")
                  case True
                  with * Cons show ?thesis
                    by (auto intro: concurrency_from_Cons2)
                next
                  case False
                  with * have eq: "concurrency c' = concurrency ?c" by simp
                  from set_concurrency_cases [of v config] show ?thesis
                  proof
                    assume "concurrency ?c = concurrency config"
                    with eq * show ?thesis by simp
                  next
                    assume "parseInt v = concurrency ?c"
                    with eq have "parseInt v = concurrency c'" by simp
                    with True Cons * show ?thesis
                      by (auto intro: concurrency_from_here)
                  qed
                qed
              qed
            next
              case noc: False
              show ?thesis
              proof (cases "startsWith arg ''-''")
                case False
                with nohelp noformats not nos noo noc "2.prems"
                have run: "parseArgs_loop rest (config\<lparr>cfg_problemId := Some arg\<rparr>) = Inr c'"
                  by simp
                from "2.IH"(6) [OF nohelp noformats not nos noo noc _ run] False "2.prems"(2)
                show ?thesis
                  by (auto intro: concurrency_from_Cons)
              next
                case True
                with nohelp noformats not nos noo noc "2.prems"
                have run: "parseArgs_loop rest config = Inr c'"
                  by simp
                from "2.IH"(7) [OF nohelp noformats not nos noo noc _ run] True "2.prems"(2)
                show ?thesis
                  by (auto intro: concurrency_from_Cons)
              qed
            qed
          qed
        qed
      qed
    qed
  qed
qed

lemma positive_cases: "positive x \<longleftrightarrow> x = Infinity \<or> (\<exists>n. 0 < n \<and> x = Num n)"
  by (cases x) (simp_all add: positive_def)

lemma to_double_small: "n < 2 ^ 53 \<Longrightarrow> to_double n = Some n"
  by (simp only: to_double_def if_True)

lemma parseInt_digits:
  assumes "ds \<noteq> []" and "\<forall>d \<in> set ds. is_digit d" and "digits_value ds < 2 ^ 53"
  shows "parseInt ds = Num (int (digits_value ds))"
proof -
  obtain d ds' where ds: "ds = d # ds'"
    using assms(1) by (cases ds) auto
  with assms(2) have digit: "is_digit d"
    by simp
  then have sign: "d \<noteq> CHR ''-'' \<and> d \<noteq> CHR ''+'' \<and> \<not> is_space d"
    by (auto simp: is_digit_def is_space_def)
  have all: "takeWhile is_digit ds = ds"
    using assms(2) by (simp add: takeWhile_eq_all_conv)
  have t: "dropWhile is_space ds = ds"
    using sign by (simp add: ds)
  have neg: "(case ds of c # _ \<Rightarrow> c = CHR ''-'' | [] \<Rightarrow> False) = False"
    using sign by (simp add: ds)
  have u: "(case ds of c # cs \<Rightarrow> if c = CHR ''-'' \<or> c = CHR ''+'' then cs else ds | [] \<Rightarrow> ds) = ds"
    using sign by (simp add: ds)
  show ?thesis
    unfolding parseInt_def Let_def t neg u all to_double_small [OF assms(3)]
    using assms(1) by simp
qed

lemma bit_length_bounds:
  "0 < n \<Longrightarrow> 2 ^ (bit_length n - 1) \<le> n \<and> n < 2 ^ bit_length n"
proof (induction n rule: bit_length.induct)
  case (1 n)
  show ?case
  proof (cases "n div 2 = 0")
    case True
    with "1.prems" have "n = 1"
      by (simp add: div_eq_0_iff) 
    then show ?thesis
      by (simp add: bit_length.simps [of "Suc 0"] bit_length.simps [of 0])
  next
    case False
    with "1.IH" "1.prems"
    have ih: "2 ^ (bit_length (n div 2) - 1) \<le> n div 2 \<and> n div 2 < 2 ^ bit_length (n div 2)"
      by simp
    have len: "bit_length n = Suc (bit_length (n div 2))"
      using "1.prems" by (subst bit_length.simps) simp
    have pos: "0 < bit_length (n div 2)"
      using False by (subst bit_length.simps) simp
    then have "(2::nat) ^ bit_length (n div 2) = 2 * 2 ^ (bit_length (n div 2) - 1)"
      by (cases "bit_length (n div 2)") simp_all
    with ih have "2 ^ bit_length (n div 2) \<le> 2 * (n div 2)"
      by simp
    then have low: "2 ^ (bit_length n - 1) \<le> n"
      unfolding len by simp
    from ih have "n < 2 * 2 ^ bit_length (n div 2)"
      by linarith
    then have "n < 2 ^ bit_length n"
      unfolding len by simp
    with low show ?thesis ..
  qed
qed

lemma to_double_large:
  assumes "2 ^ 1024 \<le> n"
  shows "to_double n = None"
proof -
  define L where "L = bit_length n"
  define e where "e = L - 53"
  define q where "q = n div 2 ^ e"
  define m where "m = (if 2 ^ e < 2 * (n mod 2 ^ e) \<or> (2 * (n mod 2 ^ e) = 2 ^ e \<and> odd q) then q + 1 else q)"
  have n0: "0 < n"
    using assms by (metis gr0I not_less zero_less_numeral zero_less_power less_le_trans)
  from bit_length_bounds [OF n0] have low: "2 ^ (L - 1) \<le> n" and high: "n < 2 ^ L"
    by (simp_all add: L_def)
  from assms high have "(2::nat) ^ 1024 < 2 ^ L"
    by (rule le_less_trans)
  from power_less_imp_less_exp [of "2::nat" 1024 L, OF _ this] have L: "1024 < L"
    by simp
  then have split: "L - 1 = 52 + e"
    by (simp add: e_def)
  have "(2::nat) ^ (L - 1) = 2 ^ 52 * 2 ^ e"
    by (simp only: split power_add)
  with low have "(2::nat) ^ 52 * 2 ^ e \<le> n"
    by (simp only:)
  then have "2 ^ 52 \<le> q"
    unfolding q_def by (simp add: less_eq_div_iff_mult_less_eq)
  moreover have "q \<le> m"
    by (simp add: m_def)
  ultimately have "2 ^ 52 \<le> m"
    by (rule order_trans)
  then have "(2::nat) ^ 52 * 2 ^ e \<le> m * 2 ^ e"
    by (rule mult_le_mono1)
  moreover have "(2::nat) ^ 1024 \<le> 2 ^ 52 * 2 ^ e"
  proof -
    from L have "1024 \<le> 52 + e"
      by (simp add: e_def)
    then have "(2::nat) ^ 1024 \<le> 2 ^ (52 + e)"
      by (intro power_increasing) simp_all
    then show ?thesis
      by (simp only: power_add)
  qed
  ultimately have over: "2 ^ 1024 \<le> m * 2 ^ e"
    by (rule order_trans [rotated])
  have big: "\<not> n < 2 ^ 53"
  proof
    assume "n < 2 ^ 53"
    with assms have "(2::nat) ^ 1024 < 2 ^ 53"
      by (rule le_less_trans)
    then show False
      by simp
  qed
  show ?thesis
    unfolding to_double_def Let_def L_def [symmetric] e_def [symmetric] q_def [symmetric]
      m_def [symmetric]
    using big over by (simp only: if_False if_True)
qed

lemma digits_value_zeros:
  "foldl (\<lambda>acc c. 10 * acc + the (index_of c ''0123456789'')) a (replicate k CHR ''0'') = a * 10 ^ k"
  by (induction k arbitrary: a) simp_all

lemma digits_value_power: "digits_value (CHR ''1'' # replicate k CHR ''0'') = 10 ^ k"
proof -
  have "digits_value (CHR ''1'' # replicate k CHR ''0'') =
      (10 * 0 + the (index_of CHR ''1'' ''0123456789'')) * 10 ^ k"
    by (simp only: digits_value_def foldl.simps digits_value_zeros)
  also have "\<dots> = 10 ^ k"
    by simp
  finally show ?thesis .
qed

lemma parseInt_huge:
  assumes "ds \<noteq> []" and "\<forall>d \<in> set ds. is_digit d" and "2 ^ 1024 \<le> digits_value ds"
  shows "parseInt ds = Infinity"
proof -
  obtain d ds' where ds: "ds = d # ds'"
    using assms(1) by (cases ds) auto
  with assms(2) have digit: "is_digit d"
    by simp
  then have sign: "d \<noteq> CHR ''-'' \<and> d \<noteq> CHR ''+'' \<and> \<not> is_space d"
    by (auto simp: is_digit_def is_space_def)
  have all: "takeWhile is_digit ds = ds"
    using assms(2) by (simp add: takeWhile_eq_all_conv)
  have t: "dropWhile is_space ds = ds"
    using sign by (simp add: ds)
  have neg: "(case ds of c # _ \<Rightarrow> c = CHR ''-'' | [] \<Rightarrow> False) = False"
    using sign by (simp add: ds)
  have u: "(case ds of c # cs \<Rightarrow> if c = CHR ''-'' \<or> c = CHR ''+'' then cs else ds | [] \<Rightarrow> ds) = ds"
    using sign by (simp add: ds)
  show ?thesis
    unfolding parseInt_def Let_def t neg u all to_double_large [OF assms(3)]
    using assms(1) by simp
qed

lemma parseInt_power: "parseInt (CHR ''1'' # replicate 309 CHR ''0'') = Infinity"
proof (rule parseInt_huge)
  show "CHR ''1'' # replicate 309 CHR ''0'' \<noteq> []"
    by simp
  show "\<forall>d \<in> set (CHR ''1'' # replicate 309 CHR ''0''). is_digit d"
    by (simp add: is_digit_def)
  have "(2::nat) ^ 1024 \<le> 10 ^ 309"
    by simp
  then show "2 ^ 1024 \<le> digits_value (CHR ''1'' # replicate 309 CHR ''0'')"
    by (simp only: digits_value_power)
qed

lemma parseArgs_infinity:
  "parseInt v = Infinity \<Longrightarrow>
   parseArgs [''-c'', v] = Inr (default_config\<lparr>concurrency := Infinity\<rparr>)"
  by (simp add: parseArgs_def set_concurrency_def parseInt_arg_def positive_def)

text \<open>
  C10, as the code has it. Whenever \<open>parseArgs\<close> returns a configuration, its concurrency is
  positive: it is the default 5, or the positive number that \<open>parseInt\<close> read from the argument
  after a \<open>--concurrency\<close> or \<open>-c\<close> flag, that is a positive integer (the integer that the
  digits denote when that is below \<open>2^53\<close>) or \<open>Infinity\<close> (when the digits denote \<open>2^1024\<close> or
  more). A flag whose value is missing is
  passed over without an error. A value for which \<open>parseInt\<close> gives nothing positive (not a
  number, zero or negative) is passed over with the configuration left as it was before the
  flag; a positive value is stored. So the concurrency is 5 when no flag had a valid value,
  and otherwise what the last valid flag gave.
\<close>

theorem parseArgs_concurrency_positive:
  "(parseArgs args = Inr cfg \<longrightarrow>
      positive (concurrency cfg) \<and>
      (concurrency cfg = Num 5 \<or>
       (\<exists>pre flag v post. args = pre @ flag # v # post \<and>
          (flag = ''--concurrency'' \<or> flag = ''-c'') \<and> parseInt v = concurrency cfg))) \<and>
   (positive x \<longleftrightarrow> x = Infinity \<or> (\<exists>n. 0 < n \<and> x = Num n)) \<and>
   (ds \<noteq> [] \<and> (\<forall>d \<in> set ds. is_digit d) \<longrightarrow>
      (digits_value ds < 2 ^ 53 \<longrightarrow> parseInt ds = Num (int (digits_value ds))) \<and>
      (2 ^ 1024 \<le> digits_value ds \<longrightarrow> parseInt ds = Infinity)) \<and>
   (flag = ''--concurrency'' \<or> flag = ''-c'' \<longrightarrow>
      parseArgs_loop [flag] c = Inr c \<and>
      (\<not> positive (parseInt v) \<longrightarrow>
         parseArgs_loop (flag # v # rest) c = parseArgs_loop rest c) \<and>
      (positive (parseInt v) \<longrightarrow>
         parseArgs_loop (flag # v # rest) c =
         parseArgs_loop rest (c\<lparr>concurrency := parseInt v\<rparr>)))"
proof (intro conjI impI)
  assume "parseArgs args = Inr cfg"
  then have run: "parseArgs_loop args default_config = Inr cfg"
    by (simp add: parseArgs_def)
  have five: "concurrency default_config = Num 5"
    by (simp add: default_config_def)
  then have pos: "positive (concurrency default_config)"
    by (simp add: positive_def)
  from parseArgs_loop_concurrency [OF run pos]
  have both: "positive (concurrency cfg) \<and>
      (concurrency cfg = Num 5 \<or> concurrency_from args (concurrency cfg))"
    by (simp only: five)
  from both show "positive (concurrency cfg)" ..
  from both have "concurrency cfg = Num 5 \<or> concurrency_from args (concurrency cfg)" ..
  then show "concurrency cfg = Num 5 \<or>
       (\<exists>pre flag v post. args = pre @ flag # v # post \<and>
          (flag = ''--concurrency'' \<or> flag = ''-c'') \<and> parseInt v = concurrency cfg)"
    unfolding concurrency_from_def .
next
  show "positive x \<longleftrightarrow> x = Infinity \<or> (\<exists>n. 0 < n \<and> x = Num n)"
    by (rule positive_cases)
next
  assume "ds \<noteq> [] \<and> (\<forall>d \<in> set ds. is_digit d)" and "digits_value ds < 2 ^ 53"
  then have "ds \<noteq> []" and "\<forall>d \<in> set ds. is_digit d" and "digits_value ds < 2 ^ 53"
    by simp_all
  then show "parseInt ds = Num (int (digits_value ds))"
    by (rule parseInt_digits)
next
  assume "ds \<noteq> [] \<and> (\<forall>d \<in> set ds. is_digit d)" and "2 ^ 1024 \<le> digits_value ds"
  then have "ds \<noteq> []" and "\<forall>d \<in> set ds. is_digit d" and "2 ^ 1024 \<le> digits_value ds"
    by simp_all
  then show "parseInt ds = Infinity"
    by (rule parseInt_huge)
next
  assume "flag = ''--concurrency'' \<or> flag = ''-c''"
  then show "parseArgs_loop [flag] c = Inr c"
    by (elim disjE) (simp_all add: set_concurrency_None)
next
  assume "flag = ''--concurrency'' \<or> flag = ''-c''"
    and "\<not> positive (parseInt v)"
  then show "parseArgs_loop (flag # v # rest) c = parseArgs_loop rest c"
    by (elim disjE) (simp_all add: set_concurrency_rejects)
next
  assume "flag = ''--concurrency'' \<or> flag = ''-c''"
    and "positive (parseInt v)"
  then show "parseArgs_loop (flag # v # rest) c =
      parseArgs_loop rest (c\<lparr>concurrency := parseInt v\<rparr>)"
    by (elim disjE) (simp_all add: set_concurrency_accepts)
qed

lemma bit_length_numeral: "bit_length (numeral n) = Suc (bit_length (numeral n div 2))"
  by (subst bit_length.simps) simp

lemma bit_length_small: "bit_length 0 = 0 \<and> bit_length 1 = 1 \<and> bit_length (Suc 0) = 1"
  by (simp add: bit_length.simps [of 0] bit_length.simps [of 1] bit_length.simps [of "Suc 0"])

text \<open>
  The rounding at work: \<open>2^53 + 1\<close> lies between two doubles and goes to the even one, and
  the largest number that is not rounded to \<open>Infinity\<close> is just below \<open>2^1024 - 2^970\<close>.
\<close>

lemma to_double_ties:
  "to_double 9007199254740993 = Some 9007199254740992 \<and>
   to_double 9007199254740995 = Some 9007199254740996 \<and>
   to_double 123456789012345678901234567890 = Some 123456789012345677877719597056"
  by (simp add: to_double_def Let_def bit_length_numeral bit_length_small)

lemma to_double_infinite: "to_double (2 ^ 1024 - 2 ^ 970) = None"
  by (simp add: to_double_def Let_def bit_length_numeral bit_length_small)

lemma to_double_largest: "to_double (2 ^ 1024 - 2 ^ 970 - 1) = Some (2 ^ 1024 - 2 ^ 971)"
  by (simp add: to_double_def Let_def bit_length_numeral bit_length_small)

lemma parseInt_examples:
  "parseInt ''0'' = Num 0 \<and> parseInt ''many'' = NaN \<and> parseInt ''-3'' = Num (- 3) \<and>
   parseInt ''10'' = Num 10 \<and> parseInt ''7'' = Num 7 \<and> parseInt ''x'' = NaN"
  by (simp add: parseInt_def is_space_def is_digit_def digits_value_def to_double_small)

theorem parseArgs_concurrency_positive_witness:
  "parseArgs [''-c'', ''0''] = Inr default_config \<and>
   parseArgs [''--concurrency'', ''many''] = Inr default_config \<and>
   parseArgs [''-c'', ''-3''] = Inr default_config \<and>
   parseArgs [''-c''] = Inr default_config \<and>
   concurrency default_config = Num 5 \<and>
   parseArgs [''-c'', ''10''] = Inr (default_config\<lparr>concurrency := Num 10\<rparr>) \<and>
   positive (concurrency (default_config\<lparr>concurrency := Num 10\<rparr>)) \<and>
   parseInt ''10'' = Num (int (digits_value ''10''))"
proof -
  have zero: "\<not> positive (parseInt ''0'')" and word: "\<not> positive (parseInt ''many'')"
    and negative: "\<not> positive (parseInt ''-3'')" and ten: "positive (parseInt ''10'')"
    by (simp_all add: parseInt_examples positive_def)
  have short: "''-c'' = ''--concurrency'' \<or> ''-c'' = ''-c''"
    by simp
  have long: "''--concurrency'' = ''--concurrency'' \<or> ''--concurrency'' = ''-c''"
    by simp
  note flag = parseArgs_concurrency_positive
    [THEN conjunct2, THEN conjunct2, THEN conjunct2, THEN mp]
  note rule_short = flag [OF short, THEN conjunct2, THEN conjunct1, THEN mp]
  note rule_long = flag [OF long, THEN conjunct2, THEN conjunct1, THEN mp]
  note rule_stored = flag [OF short, THEN conjunct2, THEN conjunct2, THEN mp]
  have a: "parseArgs [''-c'', ''0''] = Inr default_config"
    unfolding parseArgs_def using rule_short [OF zero, of "[]" default_config] by simp
  have b: "parseArgs [''--concurrency'', ''many''] = Inr default_config"
    unfolding parseArgs_def using rule_long [OF word, of "[]" default_config] by simp
  have c: "parseArgs [''-c'', ''-3''] = Inr default_config"
    unfolding parseArgs_def using rule_short [OF negative, of "[]" default_config] by simp
  have d: "parseArgs [''-c''] = Inr default_config"
    unfolding parseArgs_def using flag [OF short, THEN conjunct1] .
  have e: "parseArgs [''-c'', ''10''] = Inr (default_config\<lparr>concurrency := Num 10\<rparr>)"
    unfolding parseArgs_def using rule_stored [OF ten, of "[]" default_config]
    by (simp add: parseInt_examples)
  from parseArgs_concurrency_positive [THEN conjunct1, THEN mp, OF e, THEN conjunct1]
  have f: "positive (concurrency (default_config\<lparr>concurrency := Num 10\<rparr>))" .
  have g: "concurrency default_config = Num 5"
    by (simp add: default_config_def)
  have digits: "''10'' \<noteq> [] \<and> (\<forall>d \<in> set ''10''. is_digit d)"
    by (simp add: is_digit_def)
  have small: "digits_value ''10'' < 2 ^ 53"
    by (simp add: digits_value_def)
  from parseArgs_concurrency_positive
    [THEN conjunct2, THEN conjunct2, THEN conjunct1, THEN mp, OF digits, THEN conjunct1,
     THEN mp, OF small]
  have h: "parseInt ''10'' = Num (int (digits_value ''10''))" .
  from a b c d g e f h show ?thesis
    by (intro conjI)
qed

text \<open>
  The value behind the last flag is not a number, and the concurrency is 7, which an
  earlier flag gave, not the default 5. And the digit string of \<open>10^309\<close>, which is too large
  for a double, is stored as \<open>Infinity\<close>: positive, but not an integer.
\<close>

theorem concurrency_keeps_earlier_value:
  "parseArgs [''-c'', ''7'', ''-c'', ''x''] = Inr (default_config\<lparr>concurrency := Num 7\<rparr>) \<and>
   concurrency (default_config\<lparr>concurrency := Num 7\<rparr>) \<noteq> Num 5 \<and>
   parseArgs [''-c'', CHR ''1'' # replicate 309 CHR ''0''] =
     Inr (default_config\<lparr>concurrency := Infinity\<rparr>)"
proof (intro conjI)
  show "parseArgs [''-c'', ''7'', ''-c'', ''x''] = Inr (default_config\<lparr>concurrency := Num 7\<rparr>)"
    by (simp add: parseArgs_def set_concurrency_def parseInt_arg_def parseInt_examples
        positive_def)
  show "concurrency (default_config\<lparr>concurrency := Num 7\<rparr>) \<noteq> Num 5"
    by simp
  show "parseArgs [''-c'', CHR ''1'' # replicate 309 CHR ''0''] =
      Inr (default_config\<lparr>concurrency := Infinity\<rparr>)"
    using parseInt_power by (rule parseArgs_infinity)
qed

section \<open>Properties of the folder names\<close>

lemma slice_last_zero_pad:
  assumes "length i \<le> 4"
  shows "slice_last 4 (''0000'' @ i) = replicate (4 - length i) CHR ''0'' @ i"
proof -
  have zeros: "''0000'' = replicate 4 CHR ''0''"
    by (simp add: numeral_eq_Suc)
  have "slice_last 4 (''0000'' @ i) = drop (length i) (replicate 4 CHR ''0'' @ i)"
    unfolding zeros by (simp add: slice_last_def)
  also have "\<dots> = drop (length i) (replicate 4 CHR ''0'') @ i"
    using assms by simp
  also have "\<dots> = replicate (4 - length i) CHR ''0'' @ i"
    by simp
  finally show ?thesis .
qed

lemma set_dash_non_alnum: "c \<in> set (dash_non_alnum s) \<Longrightarrow> is_alnum c \<or> c = CHR ''-''"
  by (auto simp: dash_non_alnum_def split: if_splits)

lemma set_collapse_dashes: "set (collapse_dashes s) \<subseteq> set s"
proof (induction s rule: collapse_dashes.induct)
  case 1
  then show ?case by simp
next
  case (2 c cs)
  show ?case
  proof (cases "c = CHR ''-''")
    case True
    with 2 have "set (collapse_dashes (dropWhile (\<lambda>d. d = CHR ''-'') cs)) \<subseteq> set cs"
      using set_dropWhileD by fastforce
    with True show ?thesis by auto
  next
    case False
    with 2 show ?thesis by auto
  qed
qed

lemma set_strip_edge_dashes: "set (strip_edge_dashes s) \<subseteq> set s"
proof -
  let ?t = "case s of c # cs \<Rightarrow> if c = CHR ''-'' then cs else s | [] \<Rightarrow> s"
  have t: "set ?t \<subseteq> set s"
    by (cases s) auto
  have "set (strip_edge_dashes s) \<subseteq> set ?t"
    by (auto simp: strip_edge_dashes_def Let_def dest: in_set_butlastD)
  with t show ?thesis by blast
qed

lemma set_sanitizeFolderName:
  "c \<in> set (sanitizeFolderName n) \<Longrightarrow> is_alnum c \<or> c = CHR ''-''"
  unfolding sanitizeFolderName_def
  using set_strip_edge_dashes set_collapse_dashes set_dash_non_alnum by blast

lemma lower_char_table:
  "list_all (\<lambda>c. lower_char c \<in> set ''abcdefghijklmnopqrstuvwxyz0123456789-'')
     (CHR ''-'' # ''abcdefghijklmnopqrstuvwxyzABCDEFGHIJKLMNOPQRSTUVWXYZ0123456789'')"
  by code_simp

lemma in_set_or_head: "c \<in> set xs \<or> c = a \<Longrightarrow> c \<in> set (a # xs)"
  by auto

lemma lower_char_alnum:
  assumes "is_alnum c \<or> c = CHR ''-''"
  shows "lower_char c \<in> set ''abcdefghijklmnopqrstuvwxyz0123456789-''"
proof -
  from assms
  have "c \<in> set (CHR ''-'' # ''abcdefghijklmnopqrstuvwxyzABCDEFGHIJKLMNOPQRSTUVWXYZ0123456789'')"
    unfolding is_alnum_def by (rule in_set_or_head)
  with lower_char_table show ?thesis
    unfolding list_all_iff by (rule bspec)
qed

lemma set_problem_name:
  "set (toLowerCase (sanitizeFolderName n)) \<subseteq> set ''abcdefghijklmnopqrstuvwxyz0123456789-''"
proof
  fix c
  assume "c \<in> set (toLowerCase (sanitizeFolderName n))"
  then have "c \<in> lower_char ` set (sanitizeFolderName n)"
    by (simp only: toLowerCase_def set_map)
  then obtain d where d: "d \<in> set (sanitizeFolderName n)" and c: "c = lower_char d"
    by (rule imageE)
  from d have "is_alnum d \<or> d = CHR ''-''"
    by (rule set_sanitizeFolderName)
  then have "lower_char d \<in> set ''abcdefghijklmnopqrstuvwxyz0123456789-''"
    by (rule lower_char_alnum)
  then show "c \<in> set ''abcdefghijklmnopqrstuvwxyz0123456789-''"
    by (simp only: c)
qed

lemma problemFolder_not_empty: "problemFolder p \<noteq> []"
  by (simp add: problemFolder_def)

text \<open>
  C9, as the code has it. For an item whose id has at most four characters and whose first
  tag is not empty and does not sanitise to the empty string, the storage directory is
  \<open>root/<sanitised first tag>/<id padded with zeros to four characters>_<difficulty>_<title>\<close>,
  where the last component is the display name of the item, sanitised and in lower case,
  so made of lower-case letters, digits and dashes only. The slug of the item does not enter
  the path.
\<close>

theorem storage_directory:
  assumes "length (pid p) \<le> 4" and "outputFolder \<noteq> []"
    and "tags p = t # ts" and "t \<noteq> []" and "sanitizeFolderName t \<noteq> []"
  shows "problemPath outputFolder p =
           outputFolder @ ''/'' @ sanitizeFolderName t @ ''/'' @
           replicate (4 - length (pid p)) CHR ''0'' @ pid p @ ''_'' @ difficulty p @ ''_'' @
           toLowerCase (sanitizeFolderName (name p)) \<and>
         set (toLowerCase (sanitizeFolderName (name p))) \<subseteq>
           set ''abcdefghijklmnopqrstuvwxyz0123456789-'' \<and>
         problemPath outputFolder (p\<lparr>slug := s\<rparr>) = problemPath outputFolder p"
proof (intro conjI)
  have tag: "tagFolder p = sanitizeFolderName t"
    using assms(3,4) by (simp add: tagFolder_def)
  have "problemPath outputFolder p = outputFolder @ ''/'' @ tagFolder p @ ''/'' @ problemFolder p"
    using assms(2,5) tag problemFolder_not_empty [of p] by (simp add: problemPath_def)
  also have "problemFolder p =
      replicate (4 - length (pid p)) CHR ''0'' @ pid p @ ''_'' @ difficulty p @ ''_'' @
      toLowerCase (sanitizeFolderName (name p))"
    using slice_last_zero_pad [OF assms(1)] by (simp add: problemFolder_def)
  finally show "problemPath outputFolder p =
           outputFolder @ ''/'' @ sanitizeFolderName t @ ''/'' @
           replicate (4 - length (pid p)) CHR ''0'' @ pid p @ ''_'' @ difficulty p @ ''_'' @
           toLowerCase (sanitizeFolderName (name p))"
    using tag by simp
  show "set (toLowerCase (sanitizeFolderName (name p))) \<subseteq>
           set ''abcdefghijklmnopqrstuvwxyz0123456789-''"
    by (rule set_problem_name)
  show "problemPath outputFolder (p\<lparr>slug := s\<rparr>) = problemPath outputFolder p"
    by (simp add: problemPath_def tagFolder_def problemFolder_def)
qed

lemma example_pow_name: "toLowerCase (sanitizeFolderName ''Pow(x, n)'') = ''pow-x-n''"
  by code_simp

lemma example_pow_tag: "sanitizeFolderName ''math'' = ''math''"
  by code_simp

theorem storage_directory_witness:
  "length (pid example_pow) \<le> 4 \<and> tags example_pow = ''math'' # [''recursion''] \<and>
   sanitizeFolderName ''math'' \<noteq> [] \<and>
   problemPath ''downloads'' example_pow = ''downloads/math/0050_Medium_pow-x-n''"
proof -
  have a: "length (pid example_pow) \<le> 4" and b: "''downloads'' \<noteq> []"
    and c: "tags example_pow = ''math'' # [''recursion'']" and d: "''math'' \<noteq> []"
    and e: "sanitizeFolderName ''math'' \<noteq> []"
    by (simp_all add: example_pow_def example_pow_tag)
  from storage_directory [OF a b c d e, THEN conjunct1]
  have "problemPath ''downloads'' example_pow = ''downloads/math/0050_Medium_pow-x-n''"
    by (simp add: example_pow_def example_pow_name example_pow_tag numeral_eq_Suc)
  with a c e show ?thesis
    by (intro conjI)
qed

text \<open>
  The storage directory of problem 50, title \<open>Pow(x, n)\<close> and slug \<open>powx-n\<close>, does not end
  in the slug.
\<close>

theorem storage_directory_not_slug:
  "slug example_pow = ''powx-n'' \<and>
   problemPath ''downloads'' example_pow \<noteq> ''downloads/math/0050_Medium_powx-n''"
  by code_simp

section \<open>Properties of downloadProblem\<close>

lemma template_step_community [simp]:
  "communitySolutions (template_step c avail lang st) = communitySolutions st"
  by (simp add: template_step_def split: option.splits list.splits)

lemma template_step_description [simp]:
  "description (template_step c avail lang st) = description st"
  by (simp add: template_step_def split: option.splits list.splits)

lemma community_step_counts:
  assumes "fetchSolutions c" and "slug p \<noteq> []"
  shows "total (communitySolutions (community_step c env p path i lang st)) =
           total (communitySolutions st) -
           (if getDiscussSolution env i (slug p) lang path = No_solution then 1 else 0) \<and>
         count (communitySolutions (community_step c env p path i lang st)) =
           count (communitySolutions st) +
           (if is_success (getDiscussSolution env i (slug p) lang path) then 1 else 0)"
  using assms by (simp add: community_step_def is_success_def split: discuss_result.splits)

lemma language_loop_counts:
  assumes "fetchSolutions c" and "slug p \<noteq> []"
  shows "total (communitySolutions (language_loop c env p path avail i langs st)) =
           total (communitySolutions st) -
           int (length (filter (\<lambda>r. r = No_solution) (community_answers env p path i langs))) \<and>
         count (communitySolutions (language_loop c env p path avail i langs st)) =
           count (communitySolutions st) +
           int (length (filter is_success (community_answers env p path i langs)))"
proof (induction langs arbitrary: i st)
  case Nil
  then show ?case by simp
next
  case (Cons lang langs)
  let ?st = "community_step c env p path i lang (template_step c avail lang st)"
  from community_step_counts [OF assms, of env path i lang "template_step c avail lang st"]
  have one: "total (communitySolutions ?st) =
               total (communitySolutions st) -
               (if getDiscussSolution env i (slug p) lang path = No_solution then 1 else 0)"
    and two: "count (communitySolutions ?st) =
               count (communitySolutions st) +
               (if is_success (getDiscussSolution env i (slug p) lang path) then 1 else 0)"
    by simp_all
  from Cons.IH [of "Suc i" ?st] one two show ?case
    by simp
qed

lemma official_step_community [simp]:
  "communitySolutions (official_step c env p path st) = communitySolutions st"
  by (simp add: official_step_def split: option.splits)

lemma finish_status_counts [simp]:
  "total (communitySolutions (finish_status c st)) = total (communitySolutions st)"
  "count (communitySolutions (finish_status c st)) = count (communitySolutions st)"
  "total (templates (finish_status c st)) = total (templates st)"
  "count (templates (finish_status c st)) = count (templates st)"
  "total (officialSolution (finish_status c st)) = total (officialSolution st)"
  "count (officialSolution (finish_status c st)) = count (officialSolution st)"
  "desc_success (description (finish_status c st))"
  by (simp_all add: finish_status_def Let_def)

lemma filter_partition_answers:
  "Failure \<notin> set rs \<Longrightarrow>
   length (filter is_success rs) + length (filter (\<lambda>r. r = No_solution) rs) = length rs"
proof (induction rs)
  case Nil
  then show ?case by simp
next
  case (Cons r rs)
  then show ?case
    by (cases r) (simp_all add: is_success_def)
qed

lemma length_community_answers [simp]:
  "length (community_answers env p path i langs) = length langs"
  by (induction langs arbitrary: i) simp_all

lemma getDiscussSolution_empty:
  "cookies env \<Longrightarrow> problemSlug \<noteq> [] \<Longrightarrow> communitySolutions_of env i = Solutions [] \<Longrightarrow>
   getDiscussSolution env i problemSlug lang path = No_solution"
  by (simp add: getDiscussSolution_def)

lemma downloadProblem_returns:
  assumes "downloadProblem p out c env = Inr st"
  obtains q body md where
    "outcome (retryAsync (\<lambda>i. getProblemDescription env i (slug p)) MAX_RETRIES RETRY_DELAY) =
       Returned q"
    and "check_content p env q = Inr body"
    and "convertHtmlToMarkdown (fromCharCode env) body
           (imageMap (processHtmlBody (description_http env) body (problemPath out p))) = Inr md"
    and "st = finish_status c
           (language_loop c env p (problemPath out p)
              (case codeSnippets q of None \<Rightarrow> [] | Some l \<Rightarrow> l) 0
              (map langSlug (case codeSnippets q of None \<Rightarrow> [] | Some l \<Rightarrow> l))
              ((official_step c env p (problemPath out p) (initial_status p))
                 \<lparr>templates := (templates (official_step c env p (problemPath out p) (initial_status p)))
                    \<lparr>total := int (length (case codeSnippets q of None \<Rightarrow> [] | Some l \<Rightarrow> l))\<rparr>,
                  communitySolutions :=
                    (communitySolutions (official_step c env p (problemPath out p) (initial_status p)))
                    \<lparr>total := int (length (case codeSnippets q of None \<Rightarrow> [] | Some l \<Rightarrow> l))\<rparr>\<rparr>))"
  using assms
  by (auto simp: downloadProblem_def Let_def split: completion.splits sum.splits)

text \<open>
  C8. When \<open>downloadProblem\<close> returns a status for a problem whose community solutions were
  requested, the total of the community solutions is the number of languages less the
  number of languages for which \<open>getDiscussSolution\<close> answered \<open>no_solution\<close>, and the count is
  the number of languages with a solution: a missing answer lowers the total and leaves the
  count alone. When no language ended in an error the count equals the total, and when the
  other requested kinds are complete as well the item is fully complete, with no failure
  reason. An empty list of solutions from the remote side is answered by \<open>no_solution\<close>.
\<close>

theorem no_solution_lowers_total:
  assumes "downloadProblem p out c env = Inr st" and "fetchSolutions c" and "slug p \<noteq> []"
    and "outcome (retryAsync (\<lambda>i. getProblemDescription env i (slug p)) MAX_RETRIES RETRY_DELAY) =
           Returned q"
    and "langs = map langSlug (case codeSnippets q of None \<Rightarrow> [] | Some l \<Rightarrow> l)"
    and "answers = community_answers env p (problemPath out p) 0 langs"
  shows "total (communitySolutions st) =
           int (length langs) - int (length (filter (\<lambda>r. r = No_solution) answers)) \<and>
         count (communitySolutions st) = int (length (filter is_success answers)) \<and>
         (Failure \<notin> set answers \<longrightarrow> count (communitySolutions st) = total (communitySolutions st)) \<and>
         (Failure \<notin> set answers \<and>
          (fetchTemplates c \<longrightarrow> count (templates st) = total (templates st)) \<and>
          (fetchOfficialSolution c \<longrightarrow> count (officialSolution st) = total (officialSolution st)) \<longrightarrow>
            isFullyComplete c st \<and> failureReasons c st = []) \<and>
         (\<forall>i lang. cookies env \<and> communitySolutions_of env i = Solutions [] \<longrightarrow>
            getDiscussSolution env i (slug p) lang (problemPath out p) = No_solution)"
proof -
  from assms(1) obtain q' body md where
    q': "outcome (retryAsync (\<lambda>i. getProblemDescription env i (slug p)) MAX_RETRIES RETRY_DELAY) =
       Returned q'"
    and st: "st = finish_status c
           (language_loop c env p (problemPath out p)
              (case codeSnippets q' of None \<Rightarrow> [] | Some l \<Rightarrow> l) 0
              (map langSlug (case codeSnippets q' of None \<Rightarrow> [] | Some l \<Rightarrow> l))
              ((official_step c env p (problemPath out p) (initial_status p))
                 \<lparr>templates := (templates (official_step c env p (problemPath out p) (initial_status p)))
                    \<lparr>total := int (length (case codeSnippets q' of None \<Rightarrow> [] | Some l \<Rightarrow> l))\<rparr>,
                  communitySolutions :=
                    (communitySolutions (official_step c env p (problemPath out p) (initial_status p)))
                    \<lparr>total := int (length (case codeSnippets q' of None \<Rightarrow> [] | Some l \<Rightarrow> l))\<rparr>\<rparr>))"
    by (rule downloadProblem_returns)
  from q' assms(4) have same: "q' = q" by simp
  have tot: "total (communitySolutions st) =
      int (length langs) - int (length (filter (\<lambda>r. r = No_solution) answers))"
    and cnt: "count (communitySolutions st) = int (length (filter is_success answers))"
    unfolding st same assms(5,6)
    using language_loop_counts [OF assms(2,3)]
    by (simp_all add: initial_status_def)
  have eq: "count (communitySolutions st) = total (communitySolutions st)"
    if "Failure \<notin> set answers"
  proof -
    from filter_partition_answers [OF that]
    have "length (filter is_success answers) + length (filter (\<lambda>r. r = No_solution) answers) =
            length langs"
      by (simp add: assms(6))
    with tot cnt show ?thesis by linarith
  qed
  have desc: "desc_success (description st)"
    unfolding st by simp
  have complete: "isFullyComplete c st \<and> failureReasons c st = []"
    if "Failure \<notin> set answers"
      and "fetchTemplates c \<longrightarrow> count (templates st) = total (templates st)"
      and "fetchOfficialSolution c \<longrightarrow> count (officialSolution st) = total (officialSolution st)"
  proof
    from eq [OF that(1)] that(2,3) desc show "isFullyComplete c st"
      by (simp add: isFullyComplete_def)
    from eq [OF that(1)] that(2,3) desc show "failureReasons c st = []"
      by (intro failureReasons_empty_if_complete_counts) auto
  qed
  have none: "getDiscussSolution env i (slug p) lang (problemPath out p) = No_solution"
    if "cookies env" and "communitySolutions_of env i = Solutions []" for i lang
    by (rule getDiscussSolution_empty [OF that(1) assms(3) that(2)])
  from tot cnt eq complete none show ?thesis
    by blast
qed

theorem no_solution_lowers_total_witness:
  "fetchSolutions default_config \<and> slug example_add \<noteq> [] \<and>
   downloadProblem example_add ''downloads'' default_config example_remote =
     Inr example_add_status \<and>
   community_answers example_remote example_add (problemPath ''downloads'' example_add) 0
     [''cpp'', ''java''] ! 1 = No_solution \<and>
   total (communitySolutions example_add_status) = 1 \<and>
   count (communitySolutions example_add_status) = 1 \<and>
   isFullyComplete default_config example_add_status"
proof -
  let ?q = "\<lparr>q_content = Some ''<p>Add <code>a</code> and <code>b</code>.</p>'',
         codeSnippets = Some [\<lparr>langSlug = ''cpp'', code = Some ''int add();''\<rparr>,
                              \<lparr>langSlug = ''java'', code = Some ''class Solution {}''\<rparr>]\<rparr>"
  let ?answers = "community_answers example_remote example_add
     (problemPath ''downloads'' example_add) 0 [''cpp'', ''java'']"
  have dl: "downloadProblem example_add ''downloads'' default_config example_remote =
      Inr example_add_status"
    unfolding example_add_status_def by code_simp
  have flag: "fetchSolutions default_config" and slug: "slug example_add \<noteq> []"
    by (simp_all add: default_config_def example_add_def)
  have fetched: "outcome (retryAsync (\<lambda>i. getProblemDescription example_remote i (slug example_add))
      MAX_RETRIES RETRY_DELAY) = Returned ?q"
    by code_simp
  have langs: "[''cpp'', ''java''] = map langSlug (case codeSnippets ?q of None \<Rightarrow> [] | Some l \<Rightarrow> l)"
    by simp
  have second: "?answers ! 1 = No_solution"
    by code_simp
  have no_failure: "Failure \<notin> set ?answers"
    by code_simp
  have nos: "length (filter (\<lambda>r. r = No_solution) ?answers) = 1"
    by code_simp
  have succ: "length (filter is_success ?answers) = 1"
    by code_simp
  have others: "count (templates example_add_status) = total (templates example_add_status)"
    "count (officialSolution example_add_status) = total (officialSolution example_add_status)"
    by (simp_all add: example_add_status_def)
  note fact = no_solution_lowers_total [OF dl flag slug fetched langs refl]
  from fact nos have a: "total (communitySolutions example_add_status) = 1"
    by simp
  from fact succ have b: "count (communitySolutions example_add_status) = 1"
    by simp
  from fact no_failure others have c: "isFullyComplete default_config example_add_status"
    by blast
  from flag slug dl second a b c show ?thesis
    by (intro conjI)
qed

section \<open>Properties of the download of all problems\<close>

lemma retry_without_cookies:
  assumes "\<not> cookies env"
  shows "outcome (retryAsync (\<lambda>i. getProblemDescription env i sl) MAX_RETRIES RETRY_DELAY) =
           Thrown (Error ''No session cookies found. Please login first.'')"
proof -
  have "retry_loop (\<lambda>i. getProblemDescription env i sl) 3 RETRY_DELAY 0 [] =
          \<lparr>outcome = Thrown (Error ''No session cookies found. Please login first.''),
           calls = 3, sleeps = [] @ backoff RETRY_DELAY 0 (3 - 1)\<rparr>"
    using assms
    by (intro retry_loop_exhausted [where err = "\<lambda>_. Error ''No session cookies found. Please login first.''"])
       (simp_all add: getProblemDescription_def)
  then show ?thesis
    by (simp add: retryAsync_def MAX_RETRIES_def)
qed

lemma downloadProblem_empty_document:
  assumes "outcome (retryAsync (\<lambda>i. getProblemDescription env i (slug p)) MAX_RETRIES RETRY_DELAY) =
             Returned q"
    and "q_content q = None \<or> q_content q = Some []"
    and "\<not> locked p"
  shows "downloadProblem p out c env = Inl (Error session_expired_message)"
  using assms
  by (auto simp: downloadProblem_def check_content_def session_expired_message_def)

lemma session_expired_prefix: "startsWith session_expired_message ''SESSION_EXPIRED:''"
  by (simp add: session_expired_message_def)

lemma settle_session_expired:
  "settle c p (Inl (Error session_expired_message)) s = (s\<lparr>shouldStop := True\<rparr>, True)"
  using session_expired_prefix by (simp add: settle_def)

lemma step_settle_running:
  assumes "exit_code s = None" and "\<not> returned s" and "k < length (batch s)"
    and "batch s ! k = ((p, i), Running)"
  shows "step c out world (Settled k) s =
           (let (s', stop) = settle c p (downloadProblem p out c (world i)) s
            in s'\<lparr>batch := (batch s)[k := ((p, i), Writing (store s') stop)]\<rparr>)"
  using assms by (simp add: step_def)

lemma step_flush_abort:
  assumes "exit_code s = None" and "\<not> returned s" and "k < length (batch s)"
    and "batch s ! k = ((p, i), Writing written True)"
  shows "step c out world (Flushed k) s = s\<lparr>progress_file := Some written, exit_code := Some 1\<rparr>"
  using assms by (simp add: step_def)

text \<open>
  C7. When the detail fetch returns a question whose content is empty, for a problem that is
  not locked, a credential is present (without one the fetch throws), \<open>downloadProblem\<close>
  throws an error whose message starts with \<open>SESSION_EXPIRED:\<close>, and the worker of the
  problem treats it as fatal: it sets \<open>shouldStop\<close>, records no failure for the problem,
  writes the progress as it stands and ends the process with code 1.
\<close>

theorem empty_document_is_session_expired:
  assumes "outcome (retryAsync (\<lambda>i. getProblemDescription env i (slug p)) MAX_RETRIES RETRY_DELAY) =
             Returned q"
    and "q_content q = None \<or> q_content q = Some []"
    and "\<not> locked p"
  shows "cookies env \<and>
         (\<exists>e. downloadProblem p out c env = Inl e \<and> startsWith (message e) ''SESSION_EXPIRED:'') \<and>
         (exit_code s = None \<and> \<not> returned s \<and> k < length (batch s) \<and>
          batch s ! k = ((p, i), Running) \<and> world i = env \<longrightarrow>
            shouldStop (run c out world [Settled k] s) \<and>
            exit_code (run c out world [Settled k, Flushed k] s) = Some 1 \<and>
            progress_file (run c out world [Settled k, Flushed k] s) = Some (store s) \<and>
            failed (run c out world [Settled k, Flushed k] s) = failed s \<and>
            failedProblems_now (run c out world [Settled k, Flushed k] s) = failedProblems_now s)"
proof (intro conjI impI)
  show "cookies env"
  proof (rule ccontr)
    assume "\<not> cookies env"
    from retry_without_cookies [OF this, of "slug p"] assms(1) show False
      by simp
  qed
  have thrown: "downloadProblem p out c env = Inl (Error session_expired_message)"
    using assms by (rule downloadProblem_empty_document)
  with session_expired_prefix
  show "\<exists>e. downloadProblem p out c env = Inl e \<and> startsWith (message e) ''SESSION_EXPIRED:''"
    by simp
  assume running: "exit_code s = None \<and> \<not> returned s \<and> k < length (batch s) \<and>
          batch s ! k = ((p, i), Running) \<and> world i = env"
  let ?s1 = "s\<lparr>shouldStop := True,
               batch := (batch s)[k := ((p, i), Writing (store (s\<lparr>shouldStop := True\<rparr>)) True)]\<rparr>"
  have one: "step c out world (Settled k) s = ?s1"
    using running thrown step_settle_running [of s k p i c out world]
    by (simp add: settle_session_expired)
  have two: "step c out world (Flushed k) ?s1 =
      ?s1\<lparr>progress_file := Some (store (s\<lparr>shouldStop := True\<rparr>)), exit_code := Some 1\<rparr>"
    using running by (intro step_flush_abort) simp_all
  have same: "store (s\<lparr>shouldStop := True\<rparr>) = store s"
    by (simp add: store_def)
  from one show "shouldStop (run c out world [Settled k] s)"
    by (simp add: run_def)
  from one two show "exit_code (run c out world [Settled k, Flushed k] s) = Some 1"
    by (simp add: run_def)
  from one two same show "progress_file (run c out world [Settled k, Flushed k] s) = Some (store s)"
    by (simp add: run_def)
  from one two show "failed (run c out world [Settled k, Flushed k] s) = failed s"
    by (simp add: run_def)
  from one two
  show "failedProblems_now (run c out world [Settled k, Flushed k] s) = failedProblems_now s"
    by (simp add: run_def)
qed

theorem empty_document_is_session_expired_witness:
  "q_content \<lparr>q_content = None, codeSnippets = None\<rparr> = None \<and> \<not> locked example_sum \<and>
   cookies expired_remote \<and>
   exit_code (run default_config ''downloads'' example_world [Settled 0, Flushed 0]
     (start default_config False [example_sum, example_add] None)) = Some 1 \<and>
   failed (run default_config ''downloads'' example_world [Settled 0, Flushed 0]
     (start default_config False [example_sum, example_add] None)) =
   failed (start default_config False [example_sum, example_add] None)"
proof -
  let ?s = "start default_config False [example_sum, example_add] None"
  have fetched: "outcome (retryAsync (\<lambda>i. getProblemDescription expired_remote i (slug example_sum))
          MAX_RETRIES RETRY_DELAY) = Returned \<lparr>q_content = None, codeSnippets = None\<rparr>"
    by code_simp
  have empty: "q_content \<lparr>q_content = None, codeSnippets = None\<rparr> = None \<or>
      q_content \<lparr>q_content = None, codeSnippets = None\<rparr> = Some []"
    by simp
  have free: "\<not> locked example_sum"
    by (simp add: example_sum_def)
  have state: "exit_code ?s = None \<and> \<not> returned ?s \<and> 0 < length (batch ?s) \<and>
      batch ?s ! 0 = ((example_sum, 0), Running) \<and> example_world 0 = expired_remote"
    by (simp add: start_def dispatch_def batch_size_def Let_def empty_progress_def default_config_def
        example_sum_def example_add_def upt_rec example_world_def)
  note fact = empty_document_is_session_expired
    [where env = expired_remote and p = example_sum and s = ?s and k = 0 and i = 0
       and world = example_world and c = default_config and out = "''downloads''",
     OF fetched empty free]
  from fact have a: "cookies expired_remote"
    by (rule conjunct1)
  from fact state
  have b: "exit_code (run default_config ''downloads'' example_world [Settled 0, Flushed 0] ?s) =
      Some 1"
    and c: "failed (run default_config ''downloads'' example_world [Settled 0, Flushed 0] ?s) =
      failed ?s"
    by blast+
  from empty free a b c show ?thesis
    by simp
qed

subsection \<open>After the exit, and after the abort flag\<close>

lemma step_stopped: "exit_code s \<noteq> None \<or> returned s \<Longrightarrow> step c out world ev s = s"
  by (simp add: step_def)

lemma run_stopped: "exit_code s \<noteq> None \<or> returned s \<Longrightarrow> run c out world evs s = s"
  by (induction evs) (simp_all add: run_def step_stopped)

lemma run_append: "run c out world (evs @ evs') s = run c out world evs' (run c out world evs s)"
  by (simp add: run_def)

lemma run_Cons: "run c out world (ev # evs) s = run c out world evs (step c out world ev s)"
  by (simp add: run_def)

lemma run_Nil: "run c out world [] s = s"
  by (simp add: run_def)

lemma settle_frame:
  "batch (fst (settle c p r s)) = batch s"
  "waiting (fst (settle c p r s)) = waiting s"
  "attempted (fst (settle c p r s)) = attempted s"
  "exit_code (fst (settle c p r s)) = exit_code s"
  "returned (fst (settle c p r s)) = returned s"
  "progress_file (fst (settle c p r s)) = progress_file s"
  "shouldStop s \<Longrightarrow> shouldStop (fst (settle c p r s))"
  by (simp_all add: settle_def split: sum.splits)

lemma settle_stop_flag: "snd (settle c p r s) \<Longrightarrow> shouldStop (fst (settle c p r s))"
  by (simp add: settle_def split: sum.splits if_splits)

lemma step_Settled:
  "step c out world (Settled k) s =
     (if exit_code s \<noteq> None \<or> returned s \<or> \<not> k < length (batch s) then s
      else case batch s ! k of
             ((p, i), Running) \<Rightarrow>
               (fst (settle c p (downloadProblem p out c (world i)) s))
                 \<lparr>batch := (batch s)[k := ((p, i),
                    Writing (store (fst (settle c p (downloadProblem p out c (world i)) s)))
                      (snd (settle c p (downloadProblem p out c (world i)) s)))]\<rparr>
           | _ \<Rightarrow> s)"
  by (auto simp: step_def split_beta Let_def split: prod.splits worker_status.splits)

lemma step_Flushed:
  "step c out world (Flushed k) s =
     (if exit_code s \<noteq> None \<or> returned s \<or> \<not> k < length (batch s) then s
      else case batch s ! k of
             ((p, i), Writing written stop) \<Rightarrow>
               (if stop then s\<lparr>progress_file := Some written, exit_code := Some 1\<rparr>
                else advance c (s\<lparr>progress_file := Some written,
                                 batch := (batch s)[k := ((p, i), Done)]\<rparr>))
           | _ \<Rightarrow> s)"
  by (auto simp: step_def split: prod.splits worker_status.splits)

lemma advance_stop:
  "shouldStop s \<Longrightarrow> shouldStop (advance c s) \<and> attempted (advance c s) = attempted s \<and>
     batch (advance c s) = batch s \<and> exit_code (advance c s) = exit_code s \<and>
     progress_file (advance c s) = progress_file s"
  by (simp add: advance_def)

lemma step_keeps_stop:
  assumes "shouldStop s"
  shows "shouldStop (step c out world ev s) \<and> attempted (step c out world ev s) = attempted s"
proof (cases ev)
  case (Settled k)
  show ?thesis
    unfolding Settled step_Settled using assms
    by (auto simp: settle_frame split: prod.splits worker_status.splits)
next
  case (Flushed k)
  show ?thesis
    unfolding Flushed step_Flushed using assms
    by (auto simp: advance_stop split: prod.splits worker_status.splits)
qed

lemma run_keeps_stop:
  "shouldStop s \<Longrightarrow>
   shouldStop (run c out world evs s) \<and> attempted (run c out world evs s) = attempted s"
proof (induction evs arbitrary: s)
  case Nil
  then show ?case by (simp add: run_Nil)
next
  case (Cons ev evs)
  from step_keeps_stop [OF Cons.prems, of c out world ev]
  have "shouldStop (step c out world ev s)" and "attempted (step c out world ev s) = attempted s"
    by simp_all
  with Cons.IH [of "step c out world ev s"] show ?case
    by (simp add: run_Cons)
qed

lemma aborting_not_all_done:
  assumes "aborting k p i pr s" and "j \<noteq> k"
  shows "advance c (s\<lparr>progress_file := f, batch := (batch s)[j := entry]\<rparr>) =
           s\<lparr>progress_file := f, batch := (batch s)[j := entry]\<rparr>"
proof -
  let ?b = "(batch s)[j := entry]"
  from assms have "?b ! k = ((p, i), Writing pr True)" and "k < length ?b"
    by (simp_all add: aborting_def)
  then have "((p, i), Writing pr True) \<in> set ?b"
    by (metis nth_mem)
  then have "\<exists>x \<in> set ?b. snd x \<noteq> Done"
    by force
  then show ?thesis
    by (auto simp: advance_def)
qed

lemma step_keeps_aborting:
  assumes "aborting k p i pr s"
  shows "aborting k p i pr (step c out world ev s)"
proof (cases ev)
  case (Settled j)
  show ?thesis
  proof (cases "exit_code s \<noteq> None \<or> returned s \<or> \<not> j < length (batch s)")
    case True
    with assms show ?thesis
      unfolding Settled step_Settled by simp
  next
    case False
    obtain q n st where w: "batch s ! j = ((q, n), st)"
      by (metis prod.exhaust)
    show ?thesis
    proof (cases "st = Running")
      case True
      with w assms have "j \<noteq> k"
        by (auto simp: aborting_def)
      with assms False w True show ?thesis
        unfolding Settled step_Settled
        by (simp add: aborting_def settle_frame)
    next
      case False
      with w \<open>\<not> (exit_code s \<noteq> None \<or> returned s \<or> \<not> j < length (batch s))\<close> assms
      show ?thesis
        unfolding Settled step_Settled by (cases st) simp_all
    qed
  qed
next
  case (Flushed j)
  show ?thesis
  proof (cases "exit_code s \<noteq> None \<or> returned s \<or> \<not> j < length (batch s)")
    case True
    with assms show ?thesis
      unfolding Flushed step_Flushed by simp
  next
    case False
    obtain q n st where w: "batch s ! j = ((q, n), st)"
      by (metis prod.exhaust)
    show ?thesis
    proof (cases st)
      case Running
      with w False assms show ?thesis
        unfolding Flushed step_Flushed by simp
    next
      case Done
      with w False assms show ?thesis
        unfolding Flushed step_Flushed by simp
    next
      case (Writing written stop)
      show ?thesis
      proof (cases stop)
        case True
        with Writing w False assms show ?thesis
          unfolding Flushed step_Flushed by (simp add: aborting_def)
      next
        case nostop: False
        with Writing w assms have "j \<noteq> k"
          by (auto simp: aborting_def)
        have "advance c (s\<lparr>progress_file := Some written,
                            batch := (batch s)[j := ((q, n), Done)]\<rparr>) =
              s\<lparr>progress_file := Some written, batch := (batch s)[j := ((q, n), Done)]\<rparr>"
          using assms \<open>j \<noteq> k\<close> by (rule aborting_not_all_done)
        with Writing w False nostop assms \<open>j \<noteq> k\<close>
        show ?thesis
          unfolding Flushed step_Flushed by (simp add: aborting_def)
      qed
    qed
  qed
qed

lemma run_keeps_aborting:
  "aborting k p i pr s \<Longrightarrow> aborting k p i pr (run c out world evs s)"
proof (induction evs arbitrary: s)
  case Nil
  then show ?case by (simp add: run_Nil)
next
  case (Cons ev evs)
  from Cons.IH [OF step_keeps_aborting [OF Cons.prems]] show ?case
    by (simp add: run_Cons)
qed

lemma settle_session_error:
  "startsWith (message e) ''SESSION_EXPIRED:'' \<Longrightarrow>
   settle c p (Inl e) s = (s\<lparr>shouldStop := True\<rparr>, True)"
  by (simp add: settle_def)

lemma abort_begins:
  assumes "exit_code s = None" and "\<not> returned s" and "k < length (batch s)"
    and "batch s ! k = ((p, i), Running)"
    and "downloadProblem p out c (world i) = Inl e"
    and "startsWith (message e) ''SESSION_EXPIRED:''"
  shows "aborting k p i (store s) (step c out world (Settled k) s)"
    and "attempted (step c out world (Settled k) s) = attempted s"
    and "exit_code (step c out world (Settled k) s) = None"
    and "progress_file (step c out world (Settled k) s) = progress_file s"
  using assms
  by (simp_all add: step_Settled settle_session_error aborting_def store_def)

lemma abort_ends:
  assumes "aborting k p i pr s" and "exit_code s = None"
  shows "step c out world (Flushed k) s = s\<lparr>progress_file := Some pr, exit_code := Some 1\<rparr>"
  using assms by (simp add: step_Flushed aborting_def)


subsection \<open>The example run\<close>

lemma example_sum_download:
  "downloadProblem example_sum ''downloads'' default_config (example_world 0) =
     Inl (Error session_expired_message)"
proof -
  have "outcome (retryAsync (\<lambda>i. getProblemDescription expired_remote i (slug example_sum))
          MAX_RETRIES RETRY_DELAY) = Returned \<lparr>q_content = None, codeSnippets = None\<rparr>"
    by code_simp
  then show ?thesis
    unfolding example_world_def
    by (simp add: downloadProblem_empty_document example_sum_def)
qed

lemma example_add_download:
  "downloadProblem example_add ''downloads'' default_config (example_world 1) =
     Inr example_add_status"
  unfolding example_add_status_def example_world_def by code_simp

lemma example_add_complete: "isFullyComplete default_config example_add_status"
  by (simp add: isFullyComplete_def example_add_status_def)

lemma example_started_state:
  "example_started =
     \<lparr>completedProblems_now = {}, failedProblems_now = Map.empty,
      completed = 0, failed = 0, skipped = 0, alreadyDownloaded = 0,
      shouldStop = False, progress_file = None, exit_code = None, returned = False,
      waiting = [], batch = [((example_sum, 0), Running), ((example_add, 1), Running)],
      attempted = [''7'', ''8'']\<rparr>"
  by (simp add: example_started_def start_def dispatch_def batch_size_def Let_def empty_progress_def default_config_def
      example_sum_def example_add_def upt_rec)

text \<open>
  What the code does when the \<open>downloadProblem\<close> of a worker throws \<open>SESSION_EXPIRED\<close>: the
  worker sets the abort flag, and from then on no further problem is dispatched, whatever
  happens. The worker hands the store as it stands at that moment to \<open>fs.writeJson\<close>, and
  when that write is finished the progress file holds that store, whatever other workers
  have written in between, and the process exits; after the exit nothing changes any more.
\<close>

lemma session_expired_exit:
  assumes "exit_code s = None" and "\<not> returned s" and "k < length (batch s)"
    and "batch s ! k = ((p, i), Running)"
    and "downloadProblem p out c (world i) = Inl e"
    and "startsWith (message e) ''SESSION_EXPIRED:''"
    and "sa = step c out world (Settled k) s"
    and "sb = run c out world evs sa"
  shows "shouldStop sb \<and> attempted sb = attempted s \<and>
    (exit_code sb = None \<longrightarrow>
       step c out world (Flushed k) sb = sb\<lparr>progress_file := Some (store s), exit_code := Some 1\<rparr>) \<and>
    (exit_code sb \<noteq> None \<longrightarrow> run c out world evs' sb = sb)"
proof -
  have ab1: "aborting k p i (store s) sa" and att1: "attempted sa = attempted s"
    unfolding assms(7) using assms(1-6) by (rule abort_begins)+
  have ab2: "aborting k p i (store s) sb"
    unfolding assms(8) using ab1 by (rule run_keeps_aborting)
  from ab1 have "shouldStop sa"
    by (simp add: aborting_def)
  from run_keeps_stop [OF this, of c out world evs] att1
  have stop: "shouldStop sb" and att: "attempted sb = attempted s"
    by (simp_all add: assms(8))
  have flush: "step c out world (Flushed k) sb =
      sb\<lparr>progress_file := Some (store s), exit_code := Some 1\<rparr>"
    if "exit_code sb = None"
    using ab2 that by (rule abort_ends)
  have dead: "run c out world evs' sb = sb" if "exit_code sb \<noteq> None"
    using that by (intro run_stopped) simp
  from stop att flush dead show ?thesis
    by blast
qed

text \<open>
  A run in which a problem dispatched in the batch of the failing worker never finishes:
  both problems are dispatched in one batch; the worker of the first one meets the expired
  session and its write is finished before the download of the second one settles. The
  process has then exited, the events of the second worker never take place, and the
  progress file holds no result for problem 8.
\<close>

theorem abort_abandons_in_flight_item:
  "attempted (main default_config False ''downloads'' example_world [example_sum, example_add] None
     [Settled 0, Flushed 0, Settled 1, Flushed 1]) = [''7'', ''8''] \<and>
   exit_code (main default_config False ''downloads'' example_world [example_sum, example_add] None
     [Settled 0, Flushed 0, Settled 1, Flushed 1]) = Some 1 \<and>
   progress_file (main default_config False ''downloads'' example_world [example_sum, example_add]
     None [Settled 0, Flushed 0, Settled 1, Flushed 1]) = Some empty_progress \<and>
   ''8'' \<notin> completedProblems empty_progress \<and> failedProblems empty_progress ''8'' = None"
proof -
  let ?t1 = "example_started
      \<lparr>shouldStop := True,
       batch := [((example_sum, 0), Writing empty_progress True), ((example_add, 1), Running)]\<rparr>"
  let ?t2 = "?t1\<lparr>progress_file := Some empty_progress, exit_code := Some 1\<rparr>"
  have s1: "step default_config ''downloads'' example_world (Settled 0) example_started = ?t1"
    using example_sum_download
    by (simp add: step_Settled settle_session_expired example_started_state store_def
        empty_progress_def)
  have s2: "step default_config ''downloads'' example_world (Flushed 0) ?t1 = ?t2"
    by (simp add: step_Flushed example_started_state)
  have "exit_code ?t2 \<noteq> None \<or> returned ?t2"
    by simp
  then have "run default_config ''downloads'' example_world [Settled 1, Flushed 1] ?t2 = ?t2"
    by (rule run_stopped)
  with s1 s2 have final: "main default_config False ''downloads'' example_world
      [example_sum, example_add] None [Settled 0, Flushed 0, Settled 1, Flushed 1] = ?t2"
    by (simp only: main_def run_Cons example_started_def [symmetric])
  show ?thesis
    unfolding final by (simp add: example_started_state empty_progress_def)
qed

text \<open>
  C1: when one worker meets the expired session, the problems dispatched with it should
  still finish and persist their results, and no further batch should be dispatched. The
  code sets the abort flag for that, but it also ends the process in the failing worker. In
  the run over the problems 7 and 8, dispatched in one batch, where the session has lapsed
  for problem 7: the download of 7 fails first, then problem 8 downloads in full and
  its worker writes the progress file, which holds 8 as completed. The write of the failing
  worker, started before with the store as it was when the error was caught, is finished
  last: the progress file at the exit holds no result for problem 8, although its worker
  finished and persisted it.
\<close>

theorem abort_overwrites_sibling_result:
  "attempted (main default_config False ''downloads'' example_world [example_sum, example_add] None
     [Settled 0, Settled 1, Flushed 1]) = [''7'', ''8''] \<and>
   exit_code (main default_config False ''downloads'' example_world [example_sum, example_add] None
     [Settled 0, Settled 1, Flushed 1]) = None \<and>
   progress_file (main default_config False ''downloads'' example_world [example_sum, example_add]
     None [Settled 0, Settled 1, Flushed 1]) = Some example_add_progress \<and>
   ''8'' \<in> completedProblems example_add_progress \<and>
   exit_code (main default_config False ''downloads'' example_world [example_sum, example_add] None
     [Settled 0, Settled 1, Flushed 1, Flushed 0]) = Some 1 \<and>
   progress_file (main default_config False ''downloads'' example_world [example_sum, example_add]
     None [Settled 0, Settled 1, Flushed 1, Flushed 0]) = Some empty_progress \<and>
   ''8'' \<notin> completedProblems empty_progress \<and> failedProblems empty_progress ''8'' = None"
proof -
  let ?t1 = "example_started
      \<lparr>shouldStop := True,
       batch := [((example_sum, 0), Writing empty_progress True), ((example_add, 1), Running)]\<rparr>"
  let ?t2 = "?t1
      \<lparr>completed := 1, completedProblems_now := {''8''},
       batch := [((example_sum, 0), Writing empty_progress True),
                 ((example_add, 1), Writing example_add_progress False)]\<rparr>"
  let ?t3 = "?t2
      \<lparr>progress_file := Some example_add_progress,
       batch := [((example_sum, 0), Writing empty_progress True), ((example_add, 1), Done)]\<rparr>"
  let ?t4 = "?t3\<lparr>progress_file := Some empty_progress, exit_code := Some 1\<rparr>"
  have s1: "step default_config ''downloads'' example_world (Settled 0) example_started = ?t1"
    using example_sum_download
    by (simp add: step_Settled settle_session_expired example_started_state store_def
        empty_progress_def)
  have s2: "step default_config ''downloads'' example_world (Settled 1) ?t1 = ?t2"
    using example_add_download example_add_complete
    by (simp add: step_Settled settle_def example_started_state store_def
        example_add_progress_def example_add_def)
  have s3: "step default_config ''downloads'' example_world (Flushed 1) ?t2 = ?t3"
    by (simp add: step_Flushed advance_def example_started_state)
  have s4: "step default_config ''downloads'' example_world (Flushed 0) ?t3 = ?t4"
    by (simp add: step_Flushed example_started_state)
  have third: "main default_config False ''downloads'' example_world
      [example_sum, example_add] None [Settled 0, Settled 1, Flushed 1] = ?t3"
    using s1 s2 s3 by (simp only: main_def run_Cons run_Nil example_started_def [symmetric])
  have fourth: "main default_config False ''downloads'' example_world
      [example_sum, example_add] None [Settled 0, Settled 1, Flushed 1, Flushed 0] = ?t4"
    using s1 s2 s3 s4 by (simp only: main_def run_Cons run_Nil example_started_def [symmetric])
  show ?thesis
    unfolding third fourth
    by (simp add: example_started_state empty_progress_def example_add_progress_def)
qed

section \<open>The invariant of the progress store\<close>

lemma running_ids_append: "running_ids (xs @ ys) = running_ids xs @ running_ids ys"
  by (simp add: running_ids_def)






lemma writing_fresh: "(w, Writing pr b) \<notin> set (map (\<lambda>w. (w, st)) ws) \<or> st = Writing pr b"
  by auto
















section \<open>Properties of convertHtmlToMarkdown\<close>

subsection \<open>Patterns that do not match\<close>




















subsection \<open>What is left of a pre block\<close>









subsection \<open>Placeholders\<close>

lemma startsWith_append: "startsWith (p @ s) p"
  by (induction p) simp_all




lemma expand_template_plain:
  "CHR ''$'' \<notin> set t \<Longrightarrow> expand_template m l r caps t = t"
  by (induction m l r caps t rule: expand_template.induct) auto







subsection \<open>Extraction\<close>


















subsection \<open>Pages of texts and blocks\<close>



















text \<open>
  Outside the pages of the theorem the re-insertion can miss a block or the extraction can
  fail: the entities \<open>&lt;\<close> and \<open>&gt;\<close> around a block are decoded before the last removal of
  tags, which then takes the placeholder with it, and an empty \<open><pre><code>\<close> block makes
  \<open>content\<close> undefined.
\<close>

lemma pre_block_lost:
  "convertHtmlToMarkdown (fromCharCode example_remote) ''x &lt; 3 <pre>code</pre> y &gt; 2'' [] =
     Inr ''x  2'' \<and>
   convertHtmlToMarkdown (fromCharCode example_remote) ''<pre><code></code></pre>'' [] =
     Inl (TypeError ''Cannot read properties of undefined (reading 'replace')'')"
  by code_simp

section \<open>Properties of the image rewriter\<close>

subsection \<open>One round of the loop\<close>

lemma download_first:
  "http n u \<Longrightarrow> download http n u = \<lparr>outcome = Returned (), calls = 1, sleeps = []\<rparr>"
  by (simp add: download_def retryAsync_def MAX_RETRIES_def retry_loop.simps [of _ _ _ 0])

lemma image_round_success:
  assumes "http (length rq) u"
  shows "image_round http dir rel k u
      \<lparr>imageMap = m, imageIndex = i, requests = rq, attempts = tried, files = written\<rparr> =
    \<lparr>imageMap = map_set k (rel @ ''/'' @ show_nat i @ file_ext u) m, imageIndex = Suc i,
     requests = rq @ [u], attempts = tried @ [u],
     files = written @ [path_join [dir, show_nat i @ file_ext u]]\<rparr>"
  using download_first [of http "length rq" u] assms by (simp add: image_round_def Let_def)

lemma attempts_round: "attempts (image_round http dir rel k u st) = attempts st @ [u]"
  by (simp add: image_round_def Let_def split: completion.splits)

lemma attempts_rounds:
  "attempts (foldl (\<lambda>st u. image_round http dir rel u u st) st us) = attempts st @ us"
  by (induction us arbitrary: st) (simp_all add: attempts_round)

lemma keys_map_set:
  "map fst (map_set k v m) = (if k \<in> set (map fst m) then map fst m else map fst m @ [k])"
proof (induction m)
  case Nil
  show ?case by simp
next
  case (Cons e m)
  obtain k' v' where e: "e = (k', v')"
    by (cases e)
  show ?case
  proof (cases "k' = k")
    case True
    with e show ?thesis by simp
  next
    case False
    with e Cons show ?thesis by simp
  qed
qed

lemma distinct_map_set: "distinct (map fst m) \<Longrightarrow> distinct (map fst (map_set k v m))"
  by (simp add: keys_map_set)

lemma imageMap_round:
  "\<exists>v. imageMap (image_round http dir rel k u st) = map_set k v (imageMap st)"
  by (auto simp: image_round_def Let_def split: completion.splits)

lemma distinct_round:
  assumes "distinct (map fst (imageMap st))"
  shows "distinct (map fst (imageMap (image_round http dir rel k u st)))"
proof -
  obtain v where "imageMap (image_round http dir rel k u st) = map_set k v (imageMap st)"
    using imageMap_round by blast
  with assms show ?thesis
    by (simp only: distinct_map_set)
qed

lemma distinct_rounds:
  "distinct (map fst (imageMap st)) \<Longrightarrow>
   distinct (map fst (imageMap (foldl (\<lambda>st u. image_round http dir rel u u st) st us)))"
  by (induction us arbitrary: st) (simp_all add: distinct_round)

lemma show_nat_small: "show_nat 0 = ''0'' \<and> show_nat (Suc 0) = ''1''"
  by (simp add: show_nat.simps digit_char_def)

subsection \<open>Finding the images\<close>

lemma startsWith_split: "startsWith s p \<Longrightarrow> s = p @ drop (length p) s"
  by (induction s p rule: startsWith.induct) simp_all

lemma remote_url_cases:
  assumes "remote_url u"
  obtains b where "u = ''https://'' @ b" and "b \<noteq> []" and "CHR '')'' \<notin> set b"
  | b where "u = ''http://'' @ b" and "b \<noteq> []" and "CHR '')'' \<notin> set b"
proof -
  from assms have close: "CHR '')'' \<notin> set u"
    and either: "startsWith u ''https://'' \<and> 8 < length u \<or> startsWith u ''http://'' \<and> 7 < length u"
    by (simp_all add: remote_url_def)
  from either show thesis
  proof
    assume s: "startsWith u ''https://'' \<and> 8 < length u"
    then have "u = ''https://'' @ drop (length ''https://'') u"
      by (intro startsWith_split) (rule conjunct1)
    moreover have "length ''https://'' = 8"
      by simp
    ultimately have u: "u = ''https://'' @ drop 8 u"
      by (simp only:)
    from s have "drop 8 u \<noteq> []"
      by simp
    moreover have "CHR '')'' \<notin> set (drop 8 u)"
      using close set_drop_subset [of 8 u] by blast
    ultimately show thesis
      using u by (intro that(1))
  next
    assume s: "startsWith u ''http://'' \<and> 7 < length u"
    then have "u = ''http://'' @ drop (length ''http://'') u"
      by (intro startsWith_split) (rule conjunct1)
    moreover have "length ''http://'' = 7"
      by simp
    ultimately have u: "u = ''http://'' @ drop 7 u"
      by (simp only:)
    from s have "drop 7 u \<noteq> []"
      by simp
    moreover have "CHR '')'' \<notin> set (drop 7 u)"
      using close set_drop_subset [of 7 u] by blast
    ultimately show thesis
      using u by (intro that(2))
  qed
qed

lemma takeWhile_until:
  assumes "x \<notin> set b"
  shows "takeWhile (\<lambda>c. c \<noteq> x) (b @ x # s) = b"
proof -
  from assms have "takeWhile (\<lambda>c. c \<noteq> x) b = b"
    by (auto simp: takeWhile_eq_all_conv)
  then show ?thesis
    by (simp add: takeWhile_tail)
qed

lemma link_target_remote:
  assumes "remote_url u"
  shows "link_target ('']('' @ u @ '')'' @ s) = Some (u, length u + 3)"
  using assms
proof (cases rule: remote_url_cases)
  case (1 b)
  then show ?thesis
    by (simp add: link_target_def Let_def takeWhile_until)
next
  case (2 b)
  then show ?thesis
    by (simp add: link_target_def Let_def takeWhile_until)
qed

lemma link_target_trigger: "c \<noteq> CHR '']'' \<Longrightarrow> link_target (c # cs) = None"
  by (simp add: link_target_def)

lemma lazy_alt_link:
  assumes "alt_text a" and "remote_url u"
  shows "lazy_alt (a @ '']('' @ u @ '')'' @ s) = Some (u, length a + length u + 3)"
  using assms(1)
proof (induction a)
  case Nil
  have "lazy_alt (CHR '']'' # (''('' @ u @ '')'' @ s)) = Some (u, length u + 3)"
    using link_target_remote [OF assms(2), of s] by (subst lazy_alt.simps) simp
  then show ?case
    by simp
next
  case (Cons x a)
  then have x: "x \<noteq> CHR '']''" and line: "\<not> is_line_terminator x" and "alt_text a"
    by (simp_all add: alt_text_def)
  then have "lazy_alt (a @ '']('' @ u @ '')'' @ s) = Some (u, length a + length u + 3)"
    using Cons.IH by simp
  then show ?case
    using link_target_trigger [OF x] line by simp
qed

lemma markdown_image_link:
  assumes "alt_text a" and "remote_url u"
  shows "markdown_image (image_link a u @ s) = Some (u, length (image_link a u))"
  using lazy_alt_link [OF assms, of s] by (simp add: markdown_image_def image_link_def)

lemma markdown_image_trigger: "c \<noteq> CHR ''!'' \<Longrightarrow> markdown_image (c # cs) = None"
  by (simp add: markdown_image_def)

lemma scan_all_text:
  "CHR ''!'' \<notin> set t \<Longrightarrow> scan_all markdown_image (t @ s) = scan_all markdown_image s"
proof (induction t)
  case Nil
  show ?case by simp
next
  case (Cons x t)
  then have "x \<noteq> CHR ''!''"
    by auto
  then have "markdown_image (x # t @ s) = None"
    by (rule markdown_image_trigger)
  with Cons show ?case
    by simp
qed

lemma image_link_Cons: "image_link a u @ s = CHR ''!'' # (''['' @ a @ '']('' @ u @ '')'' @ s)"
  by (simp add: image_link_def)

lemma drop_image_link:
  "drop (length (image_link a u) - 1) (''['' @ a @ '']('' @ u @ '')'' @ s) = s"
proof -
  have "length (image_link a u) - 1 = length (''['' @ a @ '']('' @ u @ '')'')"
    by (simp add: image_link_def)
  then have "drop (length (image_link a u) - 1) ((''['' @ a @ '']('' @ u @ '')'') @ s) = s"
    by (simp only: append_eq_conv_conj [THEN iffD1, THEN conjunct2, symmetric, OF refl])
  then show ?thesis
    by simp
qed

lemma scan_all_link:
  assumes "alt_text a" and "remote_url u"
  shows "scan_all markdown_image (image_link a u @ s) = u # scan_all markdown_image s"
proof -
  have "markdown_image (CHR ''!'' # (''['' @ a @ '']('' @ u @ '')'' @ s)) =
      Some (u, length (image_link a u))"
    using markdown_image_link [OF assms, of s] by (simp only: image_link_Cons)
  then show ?thesis
    unfolding image_link_Cons
    by (subst scan_all.simps) (simp only: option.case prod.case drop_image_link)
qed

subsection \<open>Rewriting the images\<close>

lemma image_of_trigger: "c \<noteq> CHR ''!'' \<Longrightarrow> image_of u (c # cs) = None"
  by (simp add: image_of_def)

lemma replace_image_text:
  "CHR ''!'' \<notin> set t \<Longrightarrow>
   replace_image u p lead (t @ s) = t @ replace_image u p (lead @ t) s"
proof (induction t arbitrary: lead)
  case Nil
  show ?case by simp
next
  case (Cons x t)
  then have "x \<noteq> CHR ''!''"
    by auto
  then have "image_of u (x # t @ s) = None"
    by (rule image_of_trigger)
  moreover have "replace_image u p (lead @ [x]) (t @ s) = t @ replace_image u p ((lead @ [x]) @ t) s"
    using Cons.prems by (intro Cons.IH) simp
  ultimately show ?case
    by simp
qed

lemma image_of_link:
  assumes "CHR '']'' \<notin> set a"
  shows "image_of u (image_link a u @ s) = Some ([a], length (image_link a u))"
proof -
  have alt: "takeWhile (\<lambda>c. c \<noteq> CHR '']'') (a @ CHR '']'' # (''('' @ u @ '')'' @ s)) = a"
    using assms by (rule takeWhile_until)
  have "startsWith (('']('' @ u @ '')'') @ s) ('']('' @ u @ '')'')"
    by (rule startsWith_append)
  then show ?thesis
    using alt by (simp add: image_of_def image_link_def Let_def)
qed

lemma expand_image_template:
  assumes "CHR ''$'' \<notin> set p"
  shows "expand_template m l r [a] (''![$1]('' @ p @ '')'') = image_link a p"
proof -
  have "CHR ''$'' \<notin> set ('']('' @ p @ '')'')"
    using assms by simp
  then have "expand_template m l r [a] ('']('' @ p @ '')'') = '']('' @ p @ '')''"
    by (rule expand_template_plain)
  then show ?thesis
    by (simp add: image_link_def capture_ref_def)
qed

lemma replace_image_link:
  assumes "CHR '']'' \<notin> set a" and "CHR ''$'' \<notin> set p"
  shows "replace_image u p lead (image_link a u @ s) =
         image_link a p @ replace_image u p (lead @ image_link a u) s"
proof -
  have found: "image_of u (CHR ''!'' # (''['' @ a @ '']('' @ u @ '')'' @ s)) =
      Some ([a], length (image_link a u))"
    using image_of_link [OF assms(1), of u s] by (simp only: image_link_Cons)
  have "take (length (image_link a u)) (image_link a u @ s) = image_link a u"
    by simp
  then have matched: "take (length (image_link a u)) (CHR ''!'' # (''['' @ a @ '']('' @ u @ '')'' @ s)) =
      image_link a u"
    by (simp only: image_link_Cons)
  show ?thesis
    unfolding image_link_Cons [of a u s]
    by (subst replace_image.simps)
      (simp only: found option.case prod.case drop_image_link matched
         expand_image_template [OF assms(2)])
qed

subsection \<open>A URL that occurs twice\<close>

lemma scan_all_twice:
  assumes "CHR ''!'' \<notin> set t0" and "CHR ''!'' \<notin> set t1" and "CHR ''!'' \<notin> set t2"
    and "alt_text a1" and "alt_text a2" and "remote_url u"
  shows "scan_all markdown_image (t0 @ image_link a1 u @ t1 @ image_link a2 u @ t2) = [u, u]"
proof -
  have "scan_all markdown_image (t2 @ []) = scan_all markdown_image []"
    using assms(3) by (rule scan_all_text)
  then have "scan_all markdown_image t2 = []"
    by simp
  then have "scan_all markdown_image (image_link a2 u @ t2) = [u]"
    by (simp only: scan_all_link [OF assms(5,6)])
  then have "scan_all markdown_image (t1 @ image_link a2 u @ t2) = [u]"
    by (simp only: scan_all_text [OF assms(2)])
  then have "scan_all markdown_image (image_link a1 u @ t1 @ image_link a2 u @ t2) = [u, u]"
    by (simp only: scan_all_link [OF assms(4,6)])
  then show ?thesis
    by (simp only: scan_all_text [OF assms(1)])
qed

lemma replace_image_twice:
  assumes "CHR ''!'' \<notin> set t0" and "CHR ''!'' \<notin> set t1" and "CHR ''!'' \<notin> set t2"
    and "alt_text a1" and "alt_text a2" and "CHR ''$'' \<notin> set p"
  shows "replace_image u p [] (t0 @ image_link a1 u @ t1 @ image_link a2 u @ t2) =
         t0 @ image_link a1 p @ t1 @ image_link a2 p @ t2"
proof -
  from assms(4,5) have a1: "CHR '']'' \<notin> set a1" and a2: "CHR '']'' \<notin> set a2"
    by (auto simp: alt_text_def)
  have "replace_image u p lead (t2 @ []) = t2 @ replace_image u p (lead @ t2) []" for lead
    using assms(3) by (rule replace_image_text)
  then have last_text: "replace_image u p lead t2 = t2" for lead
    by simp
  show ?thesis
    by (simp only: replace_image_text [OF assms(1)] replace_image_text [OF assms(2)]
        replace_image_link [OF a1 assms(6)] replace_image_link [OF a2 assms(6)] last_text)
qed

lemma rounds_twice:
  assumes "http 0 u" and "http 1 u"
  shows "foldl (\<lambda>st imgUrl. image_round http dir rel imgUrl imgUrl st) empty_image_state [u, u] =
    \<lparr>imageMap = [(u, rel @ ''/1'' @ file_ext u)], imageIndex = 2,
     requests = [u, u], attempts = [u, u],
     files = [path_join [dir, ''0'' @ file_ext u], path_join [dir, ''1'' @ file_ext u]]\<rparr>"
proof -
  have first: "image_round http dir rel u u empty_image_state =
      \<lparr>imageMap = [(u, rel @ ''/0'' @ file_ext u)], imageIndex = 1,
       requests = [u], attempts = [u], files = [path_join [dir, ''0'' @ file_ext u]]\<rparr>"
    unfolding empty_image_state_def
    using assms(1) by (subst image_round_success) (simp_all add: show_nat_small)
  have "http (length [u]) u"
    using assms(2) by simp
  then have second: "image_round http dir rel u u
      \<lparr>imageMap = [(u, rel @ ''/0'' @ file_ext u)], imageIndex = 1,
       requests = [u], attempts = [u], files = [path_join [dir, ''0'' @ file_ext u]]\<rparr> =
      \<lparr>imageMap = [(u, rel @ ''/1'' @ file_ext u)], imageIndex = 2,
       requests = [u, u], attempts = [u, u],
       files = [path_join [dir, ''0'' @ file_ext u], path_join [dir, ''1'' @ file_ext u]]\<rparr>"
    by (subst image_round_success) (simp_all add: show_nat_small)
  show ?thesis
    by (simp only: foldl.simps first second)
qed

text \<open>
  C2, as the code has it. The rewriter makes one download attempt (one call of
  \<open>retryAsync\<close>) for every image that the scan of the document finds, in the order of the
  document and without leaving out a URL that it has met before, and its map has one entry
  for every URL. For a document with two images of the same remote URL, texts without \<open>!\<close>
  around them, when both downloads succeed at the first request: the URL is downloaded
  twice, to the files \<open>0\<close> and \<open>1\<close>, the map keeps the path of the second file, and both
  images are rewritten to that one path.
\<close>

theorem one_download_per_occurrence:
  "attempts (state (downloadImageFromMarkdown http md dir rel)) = scan_all markdown_image md \<and>
   distinct (map fst (imageMap (state (downloadImageFromMarkdown http md dir rel)))) \<and>
   (CHR ''!'' \<notin> set t0 \<and> CHR ''!'' \<notin> set t1 \<and> CHR ''!'' \<notin> set t2 \<and>
    alt_text a1 \<and> alt_text a2 \<and> remote_url u \<and> http 0 u \<and> http 1 u \<and>
    CHR ''$'' \<notin> set rel \<and> CHR ''$'' \<notin> set (file_ext u) \<longrightarrow>
    downloadImageFromMarkdown http (t0 @ image_link a1 u @ t1 @ image_link a2 u @ t2) dir rel =
      \<lparr>markdown = t0 @ image_link a1 (rel @ ''/1'' @ file_ext u) @ t1 @
                  image_link a2 (rel @ ''/1'' @ file_ext u) @ t2,
       state = \<lparr>imageMap = [(u, rel @ ''/1'' @ file_ext u)], imageIndex = 2,
                requests = [u, u], attempts = [u, u],
                files = [path_join [dir, ''0'' @ file_ext u],
                         path_join [dir, ''1'' @ file_ext u]]\<rparr>\<rparr>)"
proof (intro conjI impI)
  show "attempts (state (downloadImageFromMarkdown http md dir rel)) = scan_all markdown_image md"
    by (simp add: downloadImageFromMarkdown_def Let_def attempts_rounds empty_image_state_def)
next
  have "distinct (map fst (imageMap empty_image_state))"
    by (simp add: empty_image_state_def)
  then have "distinct (map fst (imageMap
      (foldl (\<lambda>st u. image_round http dir rel u u st) empty_image_state
         (scan_all markdown_image md))))"
    by (rule distinct_rounds)
  then show "distinct (map fst (imageMap (state (downloadImageFromMarkdown http md dir rel))))"
    by (simp add: downloadImageFromMarkdown_def Let_def)
next
  assume hyp: "CHR ''!'' \<notin> set t0 \<and> CHR ''!'' \<notin> set t1 \<and> CHR ''!'' \<notin> set t2 \<and>
    alt_text a1 \<and> alt_text a2 \<and> remote_url u \<and> http 0 u \<and> http 1 u \<and>
    CHR ''$'' \<notin> set rel \<and> CHR ''$'' \<notin> set (file_ext u)"
  then have t0: "CHR ''!'' \<notin> set t0" and t1: "CHR ''!'' \<notin> set t1" and t2: "CHR ''!'' \<notin> set t2"
    and a1: "alt_text a1" and a2: "alt_text a2" and u: "remote_url u"
    and h0: "http 0 u" and h1: "http 1 u"
    and rel: "CHR ''$'' \<notin> set rel" and ext: "CHR ''$'' \<notin> set (file_ext u)"
    by simp_all
  have path: "CHR ''$'' \<notin> set (rel @ ''/1'' @ file_ext u)"
    using rel ext by simp
  have found: "scan_all markdown_image (t0 @ image_link a1 u @ t1 @ image_link a2 u @ t2) = [u, u]"
    using t0 t1 t2 a1 a2 u by (rule scan_all_twice)
  have rewritten: "replace_image u (rel @ ''/1'' @ file_ext u) []
      (t0 @ image_link a1 u @ t1 @ image_link a2 u @ t2) =
      t0 @ image_link a1 (rel @ ''/1'' @ file_ext u) @ t1 @
      image_link a2 (rel @ ''/1'' @ file_ext u) @ t2"
    using t0 t1 t2 a1 a2 path by (rule replace_image_twice)
  show "downloadImageFromMarkdown http (t0 @ image_link a1 u @ t1 @ image_link a2 u @ t2) dir rel =
      \<lparr>markdown = t0 @ image_link a1 (rel @ ''/1'' @ file_ext u) @ t1 @
                  image_link a2 (rel @ ''/1'' @ file_ext u) @ t2,
       state = \<lparr>imageMap = [(u, rel @ ''/1'' @ file_ext u)], imageIndex = 2,
                requests = [u, u], attempts = [u, u],
                files = [path_join [dir, ''0'' @ file_ext u],
                         path_join [dir, ''1'' @ file_ext u]]\<rparr>\<rparr>"
    unfolding downloadImageFromMarkdown_def found rounds_twice [of http u dir rel, OF h0 h1]
    using rewritten by (simp add: rewrite_images_def)
qed

theorem one_download_per_occurrence_witness:
  "remote_url ''https://x.io/p.png'' \<and> alt_text ''a'' \<and> alt_text ''b'' \<and>
   file_ext ''https://x.io/p.png'' = ''.png'' \<and>
   downloadImageFromMarkdown (description_http example_remote)
       (''See '' @ image_link ''a'' ''https://x.io/p.png'' @ '' and '' @
        image_link ''b'' ''https://x.io/p.png'' @ ''.'') ''out/images'' ''./images'' =
     \<lparr>markdown = ''See ![a](./images/1.png) and ![b](./images/1.png).'',
      state = \<lparr>imageMap = [(''https://x.io/p.png'', ''./images/1.png'')], imageIndex = 2,
               requests = [''https://x.io/p.png'', ''https://x.io/p.png''],
               attempts = [''https://x.io/p.png'', ''https://x.io/p.png''],
               files = [''out/images/0.png'', ''out/images/1.png'']\<rparr>\<rparr>"
proof -
  have url: "remote_url ''https://x.io/p.png''" and a: "alt_text ''a''" and b: "alt_text ''b''"
    by code_simp+
  have ext: "file_ext ''https://x.io/p.png'' = ''.png''"
    by code_simp
  have paths: "path_join [''out/images'', ''0.png''] = ''out/images/0.png'' \<and>
      path_join [''out/images'', ''1.png''] = ''out/images/1.png''"
    by code_simp
  have hyp: "CHR ''!'' \<notin> set ''See '' \<and> CHR ''!'' \<notin> set '' and '' \<and> CHR ''!'' \<notin> set ''.'' \<and>
    alt_text ''a'' \<and> alt_text ''b'' \<and> remote_url ''https://x.io/p.png'' \<and>
    description_http example_remote 0 ''https://x.io/p.png'' \<and>
    description_http example_remote 1 ''https://x.io/p.png'' \<and>
    CHR ''$'' \<notin> set ''./images'' \<and> CHR ''$'' \<notin> set (file_ext ''https://x.io/p.png'')"
    by code_simp
  from one_download_per_occurrence [of "description_http example_remote" "[]" "''out/images''"
      "''./images''" "''See ''" "'' and ''" "''.''" "''a''" "''b''" "''https://x.io/p.png''",
      THEN conjunct2, THEN conjunct2, THEN mp, OF hyp]
  have "downloadImageFromMarkdown (description_http example_remote)
       (''See '' @ image_link ''a'' ''https://x.io/p.png'' @ '' and '' @
        image_link ''b'' ''https://x.io/p.png'' @ ''.'') ''out/images'' ''./images'' =
     \<lparr>markdown = ''See ![a](./images/1.png) and ![b](./images/1.png).'',
      state = \<lparr>imageMap = [(''https://x.io/p.png'', ''./images/1.png'')], imageIndex = 2,
               requests = [''https://x.io/p.png'', ''https://x.io/p.png''],
               attempts = [''https://x.io/p.png'', ''https://x.io/p.png''],
               files = [''out/images/0.png'', ''out/images/1.png'']\<rparr>\<rparr>"
    by (simp add: ext paths image_link_def)
  with url a b ext show ?thesis
    by (intro conjI)
qed

text \<open>
  A document with two images of one URL: the URL is fetched twice and two files are
  written.
\<close>

theorem duplicate_url_downloaded_twice:
  "attempts (state (downloadImageFromMarkdown (description_http example_remote)
       ''![a](https://x.io/p.png) and ![b](https://x.io/p.png)'' ''out/images'' ''./images'')) =
     [''https://x.io/p.png'', ''https://x.io/p.png''] \<and>
   files (state (downloadImageFromMarkdown (description_http example_remote)
       ''![a](https://x.io/p.png) and ![b](https://x.io/p.png)'' ''out/images'' ''./images'')) =
     [''out/images/0.png'', ''out/images/1.png'']"
  by code_simp

end
